theory Spec2Isabelle
  imports Complex_Main "HOL-Library.Log_Nat"
begin

section \<open>FITS to HDF5 converter: a shallow embedding of \<^verbatim>\<open>main.cc\<close>\<close>

text \<open>
  The converter reads one (depth, height, width) cube of binary32 pixels per polarization,
  computes statistics and histograms over it, writes a transposed copy and translates the
  header records into string attributes. The embedding follows \<^verbatim>\<open>main.cc\<close> statement by
  statement. Loop counters and array indices are natural numbers: the counters are \<^verbatim>\<open>int\<close>
  (\<^verbatim>\<open>auto i = 0\<close>) and the index arithmetic is \<^verbatim>\<open>long\<close>, so this is the program for a cube
  that fits in memory (no index leaves the range of \<^verbatim>\<open>long\<close>) and whose axes, bin count and
  header are each shorter than \<open>2 ^ 31\<close>. The two places where the source subtracts
  \<^verbatim>\<open>size_t\<close> values keep the wrap-around modulo \<open>2 ^ 64\<close>. The OpenMP loops write disjoint
  elements and are run in index order.
\<close>

subsection \<open>Floating-point values\<close>

text \<open>
  A \<^verbatim>\<open>float\<close> or \<^verbatim>\<open>double\<close> value is a NaN, an infinity or a rational number. The two zeros
  are one value: they compare equal, and every zero divisor the program can produce is
  \<open>+0\<close>. An operation computes the exact result and rounds it to nearest, ties to even,
  in the format of its C type: 24 digits for \<^verbatim>\<open>float\<close>, 53 for \<^verbatim>\<open>double\<close>.

  \<open>ilog2 x\<close> is the exponent of \<open>x\<close>: \<open>2 ^ ilog2 x \<le> \<bar>x\<bar> < 2 ^ (ilog2 x + 1)\<close>. \<open>round_fp\<close>
  rounds \<open>x\<close> to a multiple of the unit in the last place of its binade (of the subnormal
  binade below \<open>emin\<close>), and overflows to an infinity when the rounded value has an exponent
  above \<open>emax\<close>.
\<close>

datatype fp = NaN | PInf | NInf | Fin rat

definition pow2 :: "int \<Rightarrow> rat" where
  "pow2 e = (if 0 \<le> e then 2 ^ nat e else 1 / 2 ^ nat (- e))"

definition ilog2 :: "rat \<Rightarrow> int" where
  "ilog2 x = (let (a, b) = quotient_of \<bar>x\<bar>; e = bitlen a - bitlen b
              in if \<bar>x\<bar> < pow2 e then e - 1 else e)"

definition round_half_even :: "rat \<Rightarrow> int" where
  "round_half_even m =
     (let n = \<lfloor>m\<rfloor>; r = m - of_int n
      in if r < 1 / 2 then n else if 1 / 2 < r then n + 1 else if even n then n else n + 1)"

definition round_fp :: "nat \<Rightarrow> int \<Rightarrow> int \<Rightarrow> rat \<Rightarrow> fp" where
  "round_fp p emin emax x =
     (if x = 0 then Fin 0
      else let e = max (ilog2 x) emin;
               q = pow2 (e - (int p - 1));
               y = of_int (round_half_even (x / q)) * q
           in if y \<noteq> 0 \<and> emax < ilog2 y then (if 0 < x then PInf else NInf) else Fin y)"

definition rnd32 :: "rat \<Rightarrow> fp" where
  "rnd32 = round_fp 24 (- 126) 127"

definition rnd64 :: "rat \<Rightarrow> fp" where
  "rnd64 = round_fp 53 (- 1022) 1023"

definition isnan :: "fp \<Rightarrow> bool" where
  "isnan x = (x = NaN)"

text \<open>The operator \<^verbatim>\<open><\<close>: false as soon as one side is a NaN.\<close>

fun fp_less :: "fp \<Rightarrow> fp \<Rightarrow> bool" where
  "fp_less NaN y = False"
| "fp_less x NaN = False"
| "fp_less PInf y = False"
| "fp_less NInf NInf = False"
| "fp_less NInf y = True"
| "fp_less (Fin a) PInf = True"
| "fp_less (Fin a) NInf = False"
| "fp_less (Fin a) (Fin b) = (a < b)"

definition fp_le :: "fp \<Rightarrow> fp \<Rightarrow> bool" where
  "fp_le x y = (\<not> isnan x \<and> \<not> isnan y \<and> \<not> fp_less y x)"

fun fp_neg :: "fp \<Rightarrow> fp" where
  "fp_neg NaN = NaN"
| "fp_neg PInf = NInf"
| "fp_neg NInf = PInf"
| "fp_neg (Fin a) = Fin (- a)"

fun fp_add :: "(rat \<Rightarrow> fp) \<Rightarrow> fp \<Rightarrow> fp \<Rightarrow> fp" where
  "fp_add r NaN y = NaN"
| "fp_add r x NaN = NaN"
| "fp_add r PInf NInf = NaN"
| "fp_add r NInf PInf = NaN"
| "fp_add r PInf y = PInf"
| "fp_add r NInf y = NInf"
| "fp_add r (Fin a) PInf = PInf"
| "fp_add r (Fin a) NInf = NInf"
| "fp_add r (Fin a) (Fin b) = r (a + b)"

definition fp_sub :: "(rat \<Rightarrow> fp) \<Rightarrow> fp \<Rightarrow> fp \<Rightarrow> fp" where
  "fp_sub r x y = fp_add r x (fp_neg y)"

fun fp_mul :: "(rat \<Rightarrow> fp) \<Rightarrow> fp \<Rightarrow> fp \<Rightarrow> fp" where
  "fp_mul r NaN y = NaN"
| "fp_mul r x NaN = NaN"
| "fp_mul r PInf PInf = PInf"
| "fp_mul r PInf NInf = NInf"
| "fp_mul r NInf PInf = NInf"
| "fp_mul r NInf NInf = PInf"
| "fp_mul r PInf (Fin b) = (if b = 0 then NaN else if 0 < b then PInf else NInf)"
| "fp_mul r NInf (Fin b) = (if b = 0 then NaN else if 0 < b then NInf else PInf)"
| "fp_mul r (Fin a) PInf = (if a = 0 then NaN else if 0 < a then PInf else NInf)"
| "fp_mul r (Fin a) NInf = (if a = 0 then NaN else if 0 < a then NInf else PInf)"
| "fp_mul r (Fin a) (Fin b) = r (a * b)"

fun fp_div :: "(rat \<Rightarrow> fp) \<Rightarrow> fp \<Rightarrow> fp \<Rightarrow> fp" where
  "fp_div r NaN y = NaN"
| "fp_div r x NaN = NaN"
| "fp_div r PInf PInf = NaN"
| "fp_div r PInf NInf = NaN"
| "fp_div r NInf PInf = NaN"
| "fp_div r NInf NInf = NaN"
| "fp_div r PInf (Fin b) = (if 0 \<le> b then PInf else NInf)"
| "fp_div r NInf (Fin b) = (if 0 \<le> b then NInf else PInf)"
| "fp_div r (Fin a) PInf = Fin 0"
| "fp_div r (Fin a) NInf = Fin 0"
| "fp_div r (Fin a) (Fin b) =
     (if b = 0 then (if a = 0 then NaN else if 0 < a then PInf else NInf) else r (a / b))"

text \<open>The arithmetic of the two C types, and the conversions between them and the integers.\<close>

definition f32_add :: "fp \<Rightarrow> fp \<Rightarrow> fp" where
  "f32_add = fp_add rnd32"

definition f32_mul :: "fp \<Rightarrow> fp \<Rightarrow> fp" where
  "f32_mul = fp_mul rnd32"

definition f32_div :: "fp \<Rightarrow> fp \<Rightarrow> fp" where
  "f32_div = fp_div rnd32"

definition f64_add :: "fp \<Rightarrow> fp \<Rightarrow> fp" where
  "f64_add = fp_add rnd64"

definition f64_sub :: "fp \<Rightarrow> fp \<Rightarrow> fp" where
  "f64_sub = fp_sub rnd64"

definition f64_mul :: "fp \<Rightarrow> fp \<Rightarrow> fp" where
  "f64_mul = fp_mul rnd64"

definition f64_div :: "fp \<Rightarrow> fp \<Rightarrow> fp" where
  "f64_div = fp_div rnd64"

definition f32_of_int :: "int \<Rightarrow> fp" where
  "f32_of_int n = rnd32 (of_int n)"

definition f64_of_int :: "int \<Rightarrow> fp" where
  "f64_of_int n = rnd64 (of_int n)"

text \<open>\<^verbatim>\<open>float\<close> to \<^verbatim>\<open>double\<close> is exact; \<^verbatim>\<open>double\<close> to \<^verbatim>\<open>float\<close> rounds.\<close>

definition f2d :: "fp \<Rightarrow> fp" where
  "f2d x = x"

fun d2f :: "fp \<Rightarrow> fp" where
  "d2f (Fin a) = rnd32 a"
| "d2f x = x"

text \<open>A value is a \<^verbatim>\<open>float\<close> when rounding to binary32 leaves it as it is.\<close>

definition is_f32 :: "fp \<Rightarrow> bool" where
  "is_f32 x = (d2f x = x)"

text \<open>
  The cast \<^verbatim>\<open>(int)x\<close> of a \<^verbatim>\<open>double\<close> truncates towards zero. C++ leaves it undefined for a
  NaN, an infinity and a value whose integral part is no \<^verbatim>\<open>int\<close>: \<open>None\<close>.
\<close>

fun d2i :: "fp \<Rightarrow> int option" where
  "d2i (Fin a) =
     (let t = (if 0 \<le> a then \<lfloor>a\<rfloor> else - \<lfloor>- a\<rfloor>)
      in if - (2 ^ 31) \<le> t \<and> t < 2 ^ 31 then Some t else None)"
| "d2i x = None"

text \<open>\<^verbatim>\<open>std::min(a, b)\<close> is \<^verbatim>\<open>(b < a) ? b : a\<close>, \<^verbatim>\<open>std::max(a, b)\<close> is \<^verbatim>\<open>(a < b) ? b : a\<close>.\<close>

definition std_min :: "fp \<Rightarrow> fp \<Rightarrow> fp" where
  "std_min a b = (if fp_less b a then b else a)"

definition std_max :: "fp \<Rightarrow> fp \<Rightarrow> fp" where
  "std_max a b = (if fp_less a b then b else a)"

text \<open>The C library's \<^verbatim>\<open>fmin\<close> and \<^verbatim>\<open>fmax\<close> return the other argument when one is a NaN.\<close>

definition fmin :: "fp \<Rightarrow> fp \<Rightarrow> fp" where
  "fmin x y = (if isnan x then y else if isnan y then x else if fp_less y x then y else x)"

definition fmax :: "fp \<Rightarrow> fp \<Rightarrow> fp" where
  "fmax x y = (if isnan x then y else if isnan y then x else if fp_less x y then y else x)"

text \<open>\<^verbatim>\<open>numeric_limits<float>::max()\<close>.\<close>

definition FLT_MAX :: fp where
  "FLT_MAX = Fin ((2 ^ 24 - 1) * 2 ^ 104)"

subsection \<open>Buffers and statistics arrays\<close>

text \<open>
  The arrays of \<^verbatim>\<open>main\<close>, lines 182 to 223. A \<^verbatim>\<open>vector\<close> starts at zero, but for
  \<^verbatim>\<open>minValsZ\<close> and \<^verbatim>\<open>maxValsZ\<close>, which \<^verbatim>\<open>resize\<close> fills with the sentinels. When
  \<^verbatim>\<open>depth\<close> is 1 the rotated cube and the Z and XYZ arrays stay empty. The content of
  \<^verbatim>\<open>new float[cubeSize]\<close> is indeterminate; the model starts it at zero and no theorem
  reads an element of it before the slice pass has written it.
\<close>

record stats =
  rotatedCube :: "fp list"
  minValsXY :: "fp list"
  maxValsXY :: "fp list"
  meanValsXY :: "fp list"
  nanValsXY :: "int list"
  histogramsXY :: "int list"
  minValsZ :: "fp list"
  maxValsZ :: "fp list"
  meanValsZ :: "fp list"
  nanValsZ :: "int list"
  minValsXYZ :: "fp list"
  maxValsXYZ :: "fp list"
  meanValsXYZ :: "fp list"
  nanValsXYZ :: "int list"
  partialHistogramsXYZ :: "int list"
  histogramsXYZ :: "int list"

definition num_bins :: "nat \<Rightarrow> nat \<Rightarrow> nat" where
  "num_bins width height = nat \<lfloor>sqrt (real (width * height)) + 1 / 2\<rfloor>"

definition alloc :: "nat \<Rightarrow> nat \<Rightarrow> nat \<Rightarrow> nat \<Rightarrow> nat \<Rightarrow> stats" where
  "alloc width height depth stokes numBins =
     \<lparr>rotatedCube = (if 1 < depth then replicate (depth * height * width) (Fin 0) else []),
      minValsXY = replicate (depth * stokes) (Fin 0),
      maxValsXY = replicate (depth * stokes) (Fin 0),
      meanValsXY = replicate (depth * stokes) (Fin 0),
      nanValsXY = replicate (depth * stokes) 0,
      histogramsXY = replicate (depth * stokes * numBins) 0,
      minValsZ = (if 1 < depth then replicate (width * height * stokes) FLT_MAX else []),
      maxValsZ = (if 1 < depth then replicate (width * height * stokes) (fp_neg FLT_MAX) else []),
      meanValsZ = (if 1 < depth then replicate (width * height * stokes) (Fin 0) else []),
      nanValsZ = (if 1 < depth then replicate (width * height * stokes) 0 else []),
      minValsXYZ = (if 1 < depth then replicate stokes (Fin 0) else []),
      maxValsXYZ = (if 1 < depth then replicate stokes (Fin 0) else []),
      meanValsXYZ = (if 1 < depth then replicate stokes (Fin 0) else []),
      nanValsXYZ = (if 1 < depth then replicate stokes 0 else []),
      partialHistogramsXYZ = (if 1 < depth then replicate (depth * stokes * numBins) 0 else []),
      histogramsXYZ = (if 1 < depth then replicate (stokes * numBins) 0 else [])\<rparr>"

subsection \<open>Slice statistics and the transpose (lines 246 to 286)\<close>

text \<open>The four accumulators local to one slice, or to one Z profile.\<close>

record acc =
  minVal :: fp
  maxVal :: fp
  sumVal :: fp
  nanCount :: int

definition acc_init :: acc where
  "acc_init = \<lparr>minVal = FLT_MAX, maxVal = fp_neg FLT_MAX, sumVal = Fin 0, nanCount = 0\<rparr>"

definition stat_step :: "fp \<Rightarrow> acc \<Rightarrow> acc" where
  "stat_step val a =
     (if \<not> isnan val
      then a\<lparr>minVal := std_min (minVal a) val,
             maxVal := std_max (maxVal a) val,
             sumVal := f32_add (sumVal a) val\<rparr>
      else a\<lparr>nanCount := nanCount a + 1\<rparr>)"

text \<open>The body of the innermost loop: the state is the rotated cube and the accumulators.\<close>

definition slice_pixel ::
  "nat \<Rightarrow> nat \<Rightarrow> nat \<Rightarrow> fp list \<Rightarrow> nat \<Rightarrow> nat \<Rightarrow> nat \<Rightarrow> fp list \<times> acc \<Rightarrow> fp list \<times> acc" where
  "slice_pixel width height depth standardCube i j k s =
     (let sourceIndex = k + width * j + (height * width) * i;
          destIndex = i + depth * j + (height * depth) * k;
          val = standardCube ! sourceIndex
      in (if 1 < depth then (fst s)[destIndex := val] else fst s, stat_step val (snd s)))"

definition slice_loop ::
  "nat \<Rightarrow> nat \<Rightarrow> nat \<Rightarrow> fp list \<Rightarrow> nat \<Rightarrow> fp list \<times> acc \<Rightarrow> fp list \<times> acc" where
  "slice_loop width height depth standardCube i s =
     fold (\<lambda>j. fold (slice_pixel width height depth standardCube i j) [0..<width]) [0..<height] s"

definition publish_xy :: "nat \<Rightarrow> nat \<Rightarrow> nat \<Rightarrow> nat \<Rightarrow> nat \<Rightarrow> acc \<Rightarrow> stats \<Rightarrow> stats" where
  "publish_xy width height depth currentStokes i a st =
     (let n = currentStokes * depth + i
      in if nanCount a \<noteq> int (height * width)
         then st\<lparr>minValsXY := (minValsXY st)[n := minVal a],
                 maxValsXY := (maxValsXY st)[n := maxVal a],
                 nanValsXY := (nanValsXY st)[n := nanCount a],
                 meanValsXY := (meanValsXY st)
                   [n := f32_div (sumVal a) (f32_of_int (int (height * width) - nanCount a))]\<rparr>
         else st\<lparr>minValsXY := (minValsXY st)[n := NaN],
                 maxValsXY := (maxValsXY st)[n := NaN],
                 nanValsXY := (nanValsXY st)[n := nanCount a],
                 meanValsXY := (meanValsXY st)[n := NaN]\<rparr>)"

definition slice_iter :: "nat \<Rightarrow> nat \<Rightarrow> nat \<Rightarrow> nat \<Rightarrow> fp list \<Rightarrow> nat \<Rightarrow> stats \<Rightarrow> stats" where
  "slice_iter width height depth currentStokes standardCube i st =
     (let s = slice_loop width height depth standardCube i (rotatedCube st, acc_init)
      in publish_xy width height depth currentStokes i (snd s) (st\<lparr>rotatedCube := fst s\<rparr>))"

definition slice_pass :: "nat \<Rightarrow> nat \<Rightarrow> nat \<Rightarrow> nat \<Rightarrow> fp list \<Rightarrow> stats \<Rightarrow> stats" where
  "slice_pass width height depth currentStokes standardCube st =
     fold (slice_iter width height depth currentStokes standardCube) [0..<depth] st"

subsection \<open>Consolidation of the XYZ statistics (lines 288 to 315)\<close>

record xyz =
  xyzSum :: fp
  xyzNanCount :: int
  xyzMin :: fp
  xyzMax :: fp

definition xyz_step :: "nat \<Rightarrow> nat \<Rightarrow> nat \<Rightarrow> nat \<Rightarrow> stats \<Rightarrow> nat \<Rightarrow> xyz \<Rightarrow> xyz" where
  "xyz_step width height depth currentStokes st i x =
     (let meanVal = meanValsXY st ! (currentStokes * depth + i);
          nanCnt = nanValsXY st ! (currentStokes * depth + i);
          x' = (if \<not> isnan meanVal
                then x\<lparr>xyzSum := f64_add (xyzSum x)
                          (f2d (f32_mul meanVal (f32_of_int (int (height * width) - nanCnt)))),
                       xyzMin := fmin (xyzMin x) (f2d (minValsXY st ! (currentStokes * depth + i))),
                       xyzMax := fmax (xyzMax x) (f2d (maxValsXY st ! (currentStokes * depth + i)))\<rparr>
                else x)
      in x'\<lparr>xyzNanCount := xyzNanCount x' + nanCnt\<rparr>)"

definition xyz_loop :: "nat \<Rightarrow> nat \<Rightarrow> nat \<Rightarrow> nat \<Rightarrow> stats \<Rightarrow> xyz" where
  "xyz_loop width height depth currentStokes st =
     fold (xyz_step width height depth currentStokes st) [0..<depth]
       \<lparr>xyzSum = Fin 0, xyzNanCount = 0,
        xyzMin = f2d (minValsXY st ! (currentStokes * depth)),
        xyzMax = f2d (maxValsXY st ! (currentStokes * depth))\<rparr>"

definition publish_xyz :: "nat \<Rightarrow> nat \<Rightarrow> nat \<Rightarrow> nat \<Rightarrow> xyz \<Rightarrow> stats \<Rightarrow> stats" where
  "publish_xyz width height depth currentStokes x st =
     (let cubeSize = depth * height * width;
          st' = st\<lparr>minValsXYZ := (minValsXYZ st)[currentStokes := d2f (xyzMin x)],
                   maxValsXYZ := (maxValsXYZ st)[currentStokes := d2f (xyzMax x)],
                   nanValsXYZ := (nanValsXYZ st)[currentStokes := xyzNanCount x]\<rparr>
      in if xyzNanCount x \<noteq> int cubeSize
         then st'\<lparr>meanValsXYZ := (meanValsXYZ st)
                [currentStokes := d2f (f64_div (xyzSum x) (f64_of_int (int cubeSize - xyzNanCount x)))]\<rparr>
         else st')"

definition consolidate :: "nat \<Rightarrow> nat \<Rightarrow> nat \<Rightarrow> nat \<Rightarrow> stats \<Rightarrow> stats" where
  "consolidate width height depth currentStokes st =
     publish_xyz width height depth currentStokes (xyz_loop width height depth currentStokes st) st"

subsection \<open>Z profile statistics (lines 319 to 354)\<close>

definition profile_pixel :: "nat \<Rightarrow> nat \<Rightarrow> nat \<Rightarrow> nat \<Rightarrow> fp list \<Rightarrow> nat \<Rightarrow> nat \<Rightarrow> stats \<Rightarrow> stats" where
  "profile_pixel width height depth currentStokes standardCube j k st =
     (let a = fold (\<lambda>i. stat_step (standardCube ! (k + width * j + (height * width) * i)))
                [0..<depth] acc_init;
          n = currentStokes * width * height + k + j * width
      in if nanCount a \<noteq> int (height * width)
         then st\<lparr>minValsZ := (minValsZ st)[n := minVal a],
                 maxValsZ := (maxValsZ st)[n := maxVal a],
                 nanValsZ := (nanValsZ st)[n := nanCount a],
                 meanValsZ := (meanValsZ st)
                   [n := f32_div (sumVal a) (f32_of_int (int depth - nanCount a))]\<rparr>
         else st\<lparr>minValsZ := (minValsZ st)[n := NaN],
                 maxValsZ := (maxValsZ st)[n := NaN],
                 nanValsZ := (nanValsZ st)[n := nanCount a],
                 meanValsZ := (meanValsZ st)[n := NaN]\<rparr>)"

definition profile_pass :: "nat \<Rightarrow> nat \<Rightarrow> nat \<Rightarrow> nat \<Rightarrow> fp list \<Rightarrow> stats \<Rightarrow> stats" where
  "profile_pass width height depth currentStokes standardCube st =
     fold (\<lambda>j. fold (profile_pixel width height depth currentStokes standardCube j) [0..<width])
       [0..<height] st"

subsection \<open>Histograms (lines 358 to 405)\<close>

text \<open>
  The histogram pass can leave defined behaviour in two ways: the cast to \<^verbatim>\<open>int\<close> of a
  value that has no integral part in range', and an index outside the array.
\<close>

datatype error = UndefinedCast | OutOfBounds

fun foldE :: "('a \<Rightarrow> 's \<Rightarrow> error + 's) \<Rightarrow> 'a list \<Rightarrow> 's \<Rightarrow> error + 's" where
  "foldE f [] s = Inr s"
| "foldE f (x # xs) s = (case f x s of Inl e \<Rightarrow> Inl e | Inr s' \<Rightarrow> foldE f xs s')"

text \<open>
  \<^verbatim>\<open>min(numBins - 1, (int)(numBins * (val - lo) / range))\<close>: the pixel is widened to
  \<^verbatim>\<open>double\<close>, and so is the number of bins; the product is taken before the quotient.
\<close>

definition bin_index :: "nat \<Rightarrow> fp \<Rightarrow> fp \<Rightarrow> fp \<Rightarrow> error + int" where
  "bin_index numBins val lo range' =
     (case d2i (f64_div (f64_mul (f64_of_int (int numBins)) (f64_sub (f2d val) lo)) range') of
        None \<Rightarrow> Inl UndefinedCast
      | Some b \<Rightarrow> Inr (min (int numBins - 1) b))"

definition increment :: "int list \<Rightarrow> int \<Rightarrow> error + int list" where
  "increment h n =
     (if 0 \<le> n \<and> n < int (length h) then Inr (h[nat n := h ! nat n + 1]) else Inl OutOfBounds)"

text \<open>The body of the pixel loop: the state is the pair of the XY and the partial XYZ histograms.\<close>

definition hist_pixel ::
  "nat \<Rightarrow> nat \<Rightarrow> nat \<Rightarrow> nat \<Rightarrow> nat \<Rightarrow> fp list \<Rightarrow> fp \<Rightarrow> fp \<Rightarrow> fp \<Rightarrow> fp \<Rightarrow> nat \<Rightarrow> nat
     \<Rightarrow> int list \<times> int list \<Rightarrow> error + int list \<times> int list" where
  "hist_pixel width height depth numBins currentStokes standardCube sliceMin range' cubeMin cubeRange i j hp =
     (let val = standardCube ! (i * width * height + j)
      in if \<not> isnan val
         then (case bin_index numBins val sliceMin range' of
                 Inl e \<Rightarrow> Inl e
               | Inr binIndex \<Rightarrow>
                  (case increment (fst hp)
                          (int (currentStokes * depth * numBins + i * numBins) + binIndex) of
                     Inl e \<Rightarrow> Inl e
                   | Inr hxy \<Rightarrow>
                      if 1 < depth
                      then (case bin_index numBins val cubeMin cubeRange of
                              Inl e \<Rightarrow> Inl e
                            | Inr binIndexXYZ \<Rightarrow>
                               (case increment (snd hp)
                                       (int (currentStokes * depth * numBins + i * numBins)
                                          + binIndexXYZ) of
                                  Inl e \<Rightarrow> Inl e
                                | Inr pxyz \<Rightarrow> Inr (hxy, pxyz)))
                      else Inr (hxy, snd hp)))
         else Inr hp)"

definition hist_slice ::
  "nat \<Rightarrow> nat \<Rightarrow> nat \<Rightarrow> nat \<Rightarrow> nat \<Rightarrow> fp list \<Rightarrow> stats \<Rightarrow> fp \<Rightarrow> fp \<Rightarrow> nat
     \<Rightarrow> int list \<times> int list \<Rightarrow> error + int list \<times> int list" where
  "hist_slice width height depth numBins currentStokes standardCube st cubeMin cubeRange i hp =
     (let sliceMin = f2d (minValsXY st ! (currentStokes * depth + i));
          sliceMax = f2d (maxValsXY st ! (currentStokes * depth + i));
          range' = f64_sub sliceMax sliceMin
      in if isnan sliceMin \<or> isnan sliceMax \<or> range' = Fin 0 then Inr hp
         else foldE (hist_pixel width height depth numBins currentStokes standardCube
                       sliceMin range' cubeMin cubeRange i) [0..<width * height] hp)"

definition hist_pass ::
  "nat \<Rightarrow> nat \<Rightarrow> nat \<Rightarrow> nat \<Rightarrow> nat \<Rightarrow> fp list \<Rightarrow> fp \<Rightarrow> fp \<Rightarrow> stats \<Rightarrow> error + stats" where
  "hist_pass width height depth numBins currentStokes standardCube cubeMin cubeMax st =
     (let cubeRange = f64_sub cubeMax cubeMin
      in case foldE (hist_slice width height depth numBins currentStokes standardCube st
                       cubeMin cubeRange) [0..<depth] (histogramsXY st, partialHistogramsXYZ st) of
           Inl e \<Rightarrow> Inl e
         | Inr hp \<Rightarrow> Inr (st\<lparr>histogramsXY := fst hp, partialHistogramsXYZ := snd hp\<rparr>))"

definition sum_partial :: "nat \<Rightarrow> nat \<Rightarrow> nat \<Rightarrow> stats \<Rightarrow> stats" where
  "sum_partial depth numBins currentStokes st =
     st\<lparr>histogramsXYZ :=
          fold (\<lambda>i. fold (\<lambda>j h. h[currentStokes * numBins + j :=
                    h ! (currentStokes * numBins + j)
                      + partialHistogramsXYZ st ! (currentStokes * depth * numBins + i * numBins + j)])
                  [0..<numBins])
            [0..<depth] (histogramsXYZ st)\<rparr>"

subsection \<open>One polarization (lines 243 to 405)\<close>

text \<open>
  When \<open>depth\<close> is 1 the source leaves \<^verbatim>\<open>cubeMin\<close> and \<^verbatim>\<open>cubeMax\<close> uninitialised and never
  reads them; the model passes NaN.
\<close>

definition process_stokes :: "nat \<Rightarrow> nat \<Rightarrow> nat \<Rightarrow> nat \<Rightarrow> nat \<Rightarrow> fp list \<Rightarrow> stats \<Rightarrow> error + stats" where
  "process_stokes width height depth numBins currentStokes standardCube st =
     (let st1 = slice_pass width height depth currentStokes standardCube st
      in if 1 < depth
         then (let x = xyz_loop width height depth currentStokes st1;
                   st2 = publish_xyz width height depth currentStokes x st1;
                   st3 = profile_pass width height depth currentStokes standardCube st2
               in case hist_pass width height depth numBins currentStokes standardCube
                         (xyzMin x) (xyzMax x) st3 of
                    Inl e \<Rightarrow> Inl e
                  | Inr st4 \<Rightarrow> Inr (sum_partial depth numBins currentStokes st4))
         else hist_pass width height depth numBins currentStokes standardCube NaN NaN st1)"

subsection \<open>Strings\<close>

text \<open>
  \<^verbatim>\<open>std::string\<close> positions are \<^verbatim>\<open>size_t\<close>: \<^verbatim>\<open>npos\<close> is \<open>2 ^ 64 - 1\<close> and a difference wraps
  around. \<^verbatim>\<open>substr(pos, n)\<close> is only called with \<open>pos\<close> inside the string and cuts \<open>n\<close> at
  the end of the string.
\<close>

definition npos :: nat where
  "npos = 2 ^ 64 - 1"

definition size_sub :: "nat \<Rightarrow> nat \<Rightarrow> nat" where
  "size_sub a b = (a + 2 ^ 64 - b) mod 2 ^ 64"

definition substr :: "string \<Rightarrow> nat \<Rightarrow> nat \<Rightarrow> string" where
  "substr s pos n = take n (drop pos s)"

definition find_char :: "string \<Rightarrow> char \<Rightarrow> nat" where
  "find_char s c = (if c \<in> set s then length (takeWhile (\<lambda>x. x \<noteq> c) s) else npos)"

definition find_last_of :: "string \<Rightarrow> string \<Rightarrow> nat" where
  "find_last_of s cs =
     (if \<exists>x\<in>set s. x \<in> set cs
      then length s - 1 - length (takeWhile (\<lambda>x. x \<notin> set cs) (rev s)) else npos)"

text \<open>\<^verbatim>\<open>s.find(p) == 0\<close>: the first occurrence of \<open>p\<close> in \<open>s\<close> is at the start.\<close>

definition starts_with :: "string \<Rightarrow> string \<Rightarrow> bool" where
  "starts_with s p = (take (length p) s = p)"

text \<open>\<^verbatim>\<open>isspace\<close> in the C locale: space, tab, line feed, vertical tab, form feed, carriage return.\<close>

definition isspace :: "char \<Rightarrow> bool" where
  "isspace c = (c \<in> set [CHR 0x20, CHR 0x09, CHR 0x0A, CHR 0x0B, CHR 0x0C, CHR 0x0D])"

definition ltrim :: "string \<Rightarrow> string" where
  "ltrim s = dropWhile isspace s"

definition rtrim :: "string \<Rightarrow> string" where
  "rtrim s = rev (dropWhile isspace (rev s))"

definition trim :: "string \<Rightarrow> string" where
  "trim s = rtrim (ltrim s)"

subsection \<open>The output file name (lines 42 to 54)\<close>

text \<open>\<open>argv\<close> is the argument vector, the program name first; \<^verbatim>\<open>argc\<close> is its length, 2 or 3.\<close>

definition output_file_name :: "string list \<Rightarrow> string" where
  "output_file_name argv =
     (let inputFileName = argv ! 1
      in if length argv = 3 then argv ! 2
         else (let fitsIndex = find_last_of inputFileName ''.fits''
               in if fitsIndex \<noteq> npos
                  then substr inputFileName 0 (size_sub fitsIndex 4) @ ''.hdf5''
                  else inputFileName @ ''.hdf5''))"

text \<open>
  The derivation the specification asks for: a trailing \<^verbatim>\<open>.fits\<close> is replaced by
  \<^verbatim>\<open>.hdf5\<close>, and a name with no such suffix gets \<^verbatim>\<open>.hdf5\<close> appended.
\<close>

definition spec_output_name :: "string \<Rightarrow> string" where
  "spec_output_name inputFileName =
     (if 5 \<le> length inputFileName \<and> drop (length inputFileName - 5) inputFileName = ''.fits''
      then take (length inputFileName - 5) inputFileName @ ''.hdf5''
      else inputFileName @ ''.hdf5'')"

subsection \<open>Header translation (lines 128 to 168)\<close>

text \<open>
  The root group's attributes in creation order, and the warnings printed. A card is what
  \<^verbatim>\<open>fits_read_record\<close> left in \<^verbatim>\<open>headerTmp\<close>: at most 254 characters, so the 256-character
  attribute type cuts nothing.
\<close>

record hdr =
  attrs :: "(string \<times> string) list"
  warnings :: "string list"

definition attrExists :: "(string \<times> string) list \<Rightarrow> string \<Rightarrow> bool" where
  "attrExists a name = (name \<in> set (map fst a))"

definition initial_hdr :: hdr where
  "initial_hdr =
     \<lparr>attrs = [(''SCHEMA_VERSION'', ''0.1''), (''HDF5_CONVERTER'', ''hdf_convert''),
               (''HDF5_CONVERTER_VERSION'', ''0.1.4'')],
      warnings = []\<rparr>"

definition attribute_name :: "string \<Rightarrow> string" where
  "attribute_name headerLine = trim (substr headerLine 0 (find_char headerLine CHR ''=''))"

definition attribute_value :: "string \<Rightarrow> string" where
  "attribute_value headerLine =
     (let eqPos = find_char headerLine CHR ''='';
          commentPos = find_last_of headerLine ''/'';
          endPos = (if commentPos \<noteq> npos then size_sub (size_sub commentPos eqPos) 1 else npos);
          attributeValue = trim (substr headerLine (eqPos + 1) endPos)
      in if 2 \<le> length attributeValue \<and> find_char attributeValue (CHR 0x27) = 0 \<and>
            find_last_of attributeValue [CHR 0x27] = length attributeValue - 1
         then trim (substr attributeValue 1 (length attributeValue - 2))
         else attributeValue)"

text \<open>The records the loop turns into an attribute, or into a warning.\<close>

definition is_keyword_record :: "string \<Rightarrow> bool" where
  "is_keyword_record headerLine =
     (\<not> starts_with headerLine ''COMMENT'' \<and> \<not> starts_with headerLine ''HISTORY'' \<and>
      find_char headerLine CHR ''='' \<noteq> npos)"

definition header_record :: "string \<Rightarrow> hdr \<Rightarrow> hdr" where
  "header_record headerLine g =
     (if starts_with headerLine ''COMMENT'' then g
      else if starts_with headerLine ''HISTORY'' then g
      else if find_char headerLine CHR ''='' \<noteq> npos
      then (let attributeName = attribute_name headerLine;
                attributeValue = attribute_value headerLine
            in if \<not> attrExists (attrs g) attributeName
               then g\<lparr>attrs := attrs g @ [(attributeName, attributeValue)]\<rparr>
               else g\<lparr>warnings := warnings g
                      @ [''Warning: Skipping duplicate attribute '' @ [CHR 0x27] @ attributeName @ [CHR 0x27]]\<rparr>)
      else g)"

text \<open>\<open>cards i\<close> is the record that the \<open>i\<close>-th call of \<^verbatim>\<open>fits_read_record\<close> hands over.\<close>

definition translate_headers :: "(nat \<Rightarrow> string) \<Rightarrow> nat \<Rightarrow> hdr \<Rightarrow> hdr" where
  "translate_headers cards numHeaders g = fold (\<lambda>i. header_record (cards i)) [0..<numHeaders] g"

text \<open>
  The reader's side of the loop, the two CFITSIO routines that line 139 and line 142 call, over
  the header of the input file: its records in file order, the \<^verbatim>\<open>END\<close> record left out, each
  as the reader hands it over (trailing blanks dropped). \<^verbatim>\<open>fits_get_hdrspace\<close> reports how many
  records there are. \<^verbatim>\<open>fits_read_record\<close> numbers the records from 1: asked for record 0 it
  only moves to the start of the header and hands back the empty string, and asked for a
  number past the last record (which the loop never does) it hands back the empty string
  with an error status.
\<close>

definition fits_get_hdrspace :: "string list \<Rightarrow> nat" where
  "fits_get_hdrspace header = length header"

definition fits_read_record :: "string list \<Rightarrow> nat \<Rightarrow> string" where
  "fits_read_record header keynum =
     (if keynum = 0 then []
      else if keynum \<le> length header then header ! (keynum - 1)
      else [])"

text \<open>
  Lines 138 to 168 on the header of the input file: \<^verbatim>\<open>numHeaders\<close> is what
  \<^verbatim>\<open>fits_get_hdrspace\<close> reports, and the loop asks \<^verbatim>\<open>fits_read_record\<close> for the records
  \<open>0\<close> to \<open>numHeaders - 1\<close>.
\<close>

definition main_headers :: "string list \<Rightarrow> hdr" where
  "main_headers header =
     (let numHeaders = fits_get_hdrspace header
      in translate_headers (\<lambda>i. fits_read_record header i) numHeaders initial_hdr)"

text \<open>
  The translation in the specification's words. The name is the text before the first
  \<^verbatim>\<open>=\<close>, trimmed. The value is the text after the first \<^verbatim>\<open>=\<close>, up to the last \<^verbatim>\<open>/\<close> in
  it or to the end of the record when it holds none, trimmed; when it is at least two
  characters long and wrapped in single quotes, the pair is stripped and the rest trimmed.
\<close>

definition spec_attribute_name :: "string \<Rightarrow> string" where
  "spec_attribute_name headerLine = trim (takeWhile (\<lambda>c. c \<noteq> CHR ''='') headerLine)"

definition before_last :: "char \<Rightarrow> string \<Rightarrow> string" where
  "before_last c s = (if c \<in> set s then rev (tl (dropWhile (\<lambda>x. x \<noteq> c) (rev s))) else s)"

definition unquote :: "string \<Rightarrow> string" where
  "unquote v =
     (if 2 \<le> length v \<and> hd v = CHR 0x27 \<and> last v = CHR 0x27 then trim (butlast (tl v)) else v)"

definition spec_attribute_value :: "string \<Rightarrow> string" where
  "spec_attribute_value headerLine =
     unquote (trim (before_last CHR ''/'' (tl (dropWhile (\<lambda>c. c \<noteq> CHR ''='') headerLine))))"

subsection \<open>The driver and the reader's status (\<^verbatim>\<open>main\<close>, lines 36 to 501)\<close>

text \<open>
  What the FITS reader answers. Every CFITSIO call takes the address of the one \<^verbatim>\<open>status\<close>
  variable of \<^verbatim>\<open>main\<close>; a call entered with a nonzero status returns at once and leaves it
  as it is. A \<open>_status\<close> field is the status the call gives when it is entered with status
  0; the other fields are what \<^verbatim>\<open>main\<close> finds in the call's output variables (\<open>nkeys\<close> in
  \<^verbatim>\<open>numHeaders\<close>). The HDF5
  writer has no status: its C++ interface throws, and \<^verbatim>\<open>main\<close> catches nothing.
\<close>

record fits =
  open_status :: int
  img_type_status :: int
  bitpix :: int
  img_dim_status :: int
  naxis :: int
  img_size_status :: int
  naxes :: "nat list"
  hdrspace_status :: int
  nkeys :: nat
  record_status :: "nat \<Rightarrow> int"
  pix_status :: "nat \<Rightarrow> int"

definition cfitsio :: "int \<Rightarrow> int \<Rightarrow> int" where
  "cfitsio rc status = (if status \<noteq> 0 then status else rc)"

text \<open>What a run does, in order, and how it ends.\<close>

datatype action =
    Print string
  | FitsOpen
  | FitsGetImgType
  | FitsGetImgDim
  | FitsGetImgSize
  | H5Create string
  | FitsGetHdrspace
  | FitsReadRecord nat
  | H5CreateDatasets
  | FitsReadPix nat
  | ProcessCube nat
  | H5WriteCube nat
  | H5WriteStatistics
  | H5Close
  | Rename string string

record run =
  exit_code :: int
  last_status :: int
  actions :: "action list"

definition main_driver :: "string list \<Rightarrow> fits \<Rightarrow> run" where
  "main_driver argv f =
     (if length argv < 2 \<or> 3 < length argv
      then \<lparr>exit_code = 1, last_status = 0,
             actions = [Print ''Usage: hdf_convert {INPUT FITS file} {OUTPUT HDF5 file}'']\<rparr>
      else
        let outputFileName = output_file_name argv;
            start = [Print (''Converting FITS file '' @ argv ! 1 @ '' to HDF5 file '' @ outputFileName),
                     FitsOpen];
            status1 = cfitsio (open_status f) 0
        in if status1 \<noteq> 0
           then \<lparr>exit_code = 1, last_status = status1,
                  actions = start @ [Print ''error opening FITS file'']\<rparr>
           else
             let status2 = cfitsio (img_type_status f) status1;
                 status3 = cfitsio (img_dim_status f) status2
             in if bitpix f \<noteq> - 32
                then \<lparr>exit_code = 1, last_status = status3,
                       actions = start @ [FitsGetImgType, FitsGetImgDim,
                                          Print ''Currently only supports FP32 files'']\<rparr>
                else if naxis f < 2 \<or> 4 < naxis f
                then \<lparr>exit_code = 1, last_status = status3,
                       actions = start @ [FitsGetImgType, FitsGetImgDim,
                                          Print ''Currently only supports 2D, 3D and 4D cubes'']\<rparr>
                else
                  let status4 = cfitsio (img_size_status f) status3;
                      stokes = (if naxis f = 4 then naxes f ! 3 else 1);
                      status5 = cfitsio (hdrspace_status f) status4;
                      status6 = fold (\<lambda>i. cfitsio (record_status f i)) [0..<nkeys f] status5;
                      status7 = fold (\<lambda>s. cfitsio (pix_status f s)) [0..<stokes] status6
                  in \<lparr>exit_code = 0, last_status = status7,
                       actions = start @ [FitsGetImgType, FitsGetImgDim, FitsGetImgSize,
                                          H5Create (outputFileName @ ''.tmp''), FitsGetHdrspace]
                         @ map FitsReadRecord [0..<nkeys f]
                         @ [H5CreateDatasets]
                         @ concat (map (\<lambda>s. [FitsReadPix s, ProcessCube s, H5WriteCube s]) [0..<stokes])
                         @ [H5WriteStatistics, H5Close,
                            Rename (outputFileName @ ''.tmp'') outputFileName]\<rparr>)"

text \<open>The transpose store of the pixel \<open>p = (i, j, k)\<close>, as the slice pass does it.\<close>

definition rot_write :: "nat \<Rightarrow> nat \<Rightarrow> nat \<Rightarrow> fp list \<Rightarrow> nat \<times> nat \<times> nat \<Rightarrow> fp list \<Rightarrow> fp list" where
  "rot_write width height depth standardCube p rot =
     rot[fst p + depth * fst (snd p) + (height * depth) * snd (snd p) :=
         standardCube ! (snd (snd p) + width * fst (snd p) + (height * width) * fst p)]"

text \<open>The pixels of slice \<open>i\<close> in the order the loops visit them.\<close>

definition slice_vals :: "nat \<Rightarrow> nat \<Rightarrow> fp list \<Rightarrow> nat \<Rightarrow> fp list" where
  "slice_vals width height standardCube i =
     take (height * width) (drop (i * (height * width)) standardCube)"

definition slice_acc :: "nat \<Rightarrow> nat \<Rightarrow> fp list \<Rightarrow> nat \<Rightarrow> acc" where
  "slice_acc width height standardCube i =
     fold stat_step (slice_vals width height standardCube i) acc_init"

text \<open>The arrays have the sizes \<^verbatim>\<open>main\<close> allocates them with.\<close>

definition allocated :: "nat \<Rightarrow> nat \<Rightarrow> nat \<Rightarrow> nat \<Rightarrow> nat \<Rightarrow> stats \<Rightarrow> bool" where
  "allocated width height depth stokes numBins st =
     (length (minValsXY st) = depth * stokes \<and>
      length (maxValsXY st) = depth * stokes \<and>
      length (meanValsXY st) = depth * stokes \<and>
      length (nanValsXY st) = depth * stokes \<and>
      length (histogramsXY st) = depth * stokes * numBins \<and>
      (if 1 < depth
       then length (rotatedCube st) = depth * height * width \<and>
            length (minValsZ st) = width * height * stokes \<and>
            length (maxValsZ st) = width * height * stokes \<and>
            length (meanValsZ st) = width * height * stokes \<and>
            length (nanValsZ st) = width * height * stokes \<and>
            length (minValsXYZ st) = stokes \<and>
            length (maxValsXYZ st) = stokes \<and>
            length (meanValsXYZ st) = stokes \<and>
            length (nanValsXYZ st) = stokes \<and>
            length (partialHistogramsXYZ st) = depth * stokes * numBins \<and>
            length (histogramsXYZ st) = stokes * numBins
       else True))"

text \<open>\<open>m\<close> is the least, or the greatest, value of a set of values that holds no NaN.\<close>

definition is_least :: "fp set \<Rightarrow> fp \<Rightarrow> bool" where
  "is_least S m = (m \<in> S \<and> (\<forall>x\<in>S. fp_le m x))"

definition is_greatest :: "fp set \<Rightarrow> fp \<Rightarrow> bool" where
  "is_greatest S m = (m \<in> S \<and> (\<forall>x\<in>S. fp_le x m))"

text \<open>What the slice pass publishes from the accumulators of a slice.\<close>

definition pub_min :: "nat \<Rightarrow> nat \<Rightarrow> acc \<Rightarrow> fp" where
  "pub_min width height a = (if nanCount a \<noteq> int (height * width) then minVal a else NaN)"

definition pub_max :: "nat \<Rightarrow> nat \<Rightarrow> acc \<Rightarrow> fp" where
  "pub_max width height a = (if nanCount a \<noteq> int (height * width) then maxVal a else NaN)"

definition pub_mean :: "nat \<Rightarrow> nat \<Rightarrow> acc \<Rightarrow> fp" where
  "pub_mean width height a =
     (if nanCount a \<noteq> int (height * width)
      then f32_div (sumVal a) (f32_of_int (int (height * width) - nanCount a)) else NaN)"

text \<open>
  The slices that reach the XYZ extremes: slice 0 through the initialisation of \<^verbatim>\<open>xyzMin\<close>
  and \<^verbatim>\<open>xyzMax\<close>, the others through the guard on their mean.
\<close>

definition xyz_slices :: "nat \<Rightarrow> nat \<Rightarrow> stats \<Rightarrow> nat set" where
  "xyz_slices depth currentStokes st =
     {z. z < depth \<and> (z = 0 \<or> \<not> isnan (meanValsXY st ! (currentStokes * depth + z)))}"

text \<open>\<open>m\<close> is the least (greatest) value of \<open>A\<close> that is no NaN, and a NaN when \<open>A\<close> holds none.\<close>

definition least_or_nan :: "fp set \<Rightarrow> fp \<Rightarrow> bool" where
  "least_or_nan A m =
     (if {x \<in> A. \<not> isnan x} = {} then isnan m else is_least {x \<in> A. \<not> isnan x} m)"

definition greatest_or_nan :: "fp set \<Rightarrow> fp \<Rightarrow> bool" where
  "greatest_or_nan A m =
     (if {x \<in> A. \<not> isnan x} = {} then isnan m else is_greatest {x \<in> A. \<not> isnan x} m)"

text \<open>The Z profile of the spatial pixel \<open>(j, k)\<close>, and its accumulators.\<close>

definition profile_vals :: "nat \<Rightarrow> nat \<Rightarrow> nat \<Rightarrow> fp list \<Rightarrow> nat \<Rightarrow> nat \<Rightarrow> fp list" where
  "profile_vals width height depth standardCube j k =
     map (\<lambda>i. standardCube ! (k + width * j + (height * width) * i)) [0..<depth]"

definition profile_acc :: "nat \<Rightarrow> nat \<Rightarrow> nat \<Rightarrow> fp list \<Rightarrow> nat \<Rightarrow> nat \<Rightarrow> acc" where
  "profile_acc width height depth standardCube j k =
     fold stat_step (profile_vals width height depth standardCube j k) acc_init"

text \<open>
  The mean of a slice as the specification asks for it: the sum of the values that are no
  NaN is accumulated in \<^verbatim>\<open>double\<close>, divided in \<^verbatim>\<open>double\<close>, and converted to \<^verbatim>\<open>float\<close> when
  it is published.
\<close>

definition spec_mean :: "fp list \<Rightarrow> fp" where
  "spec_mean vs =
     d2f (f64_div (foldl f64_add (Fin 0) (map f2d (filter (\<lambda>v. \<not> isnan v) vs)))
            (f64_of_int (int (length (filter (\<lambda>v. \<not> isnan v) vs)))))"

section \<open>Properties\<close>

subsection \<open>Loops over pairs and records\<close>

lemma fst_fold:
  assumes "\<And>x s. fst (f x s) = g x (fst s)"
  shows "fst (fold f xs s) = fold g xs (fst s)"
  by (induction xs arbitrary: s) (simp_all add: assms)

lemma snd_fold:
  assumes "\<And>x s. snd (f x s) = g x (snd s)"
  shows "snd (fold f xs s) = fold g xs (snd s)"
  by (induction xs arbitrary: s) (simp_all add: assms)

lemma rec_fold:
  assumes "\<And>x s. sel (f x s) = g x (sel s)"
  shows "sel (fold f xs s) = fold g xs (sel s)"
  by (induction xs arbitrary: s) (simp_all add: assms)

lemma fold_product:
  "fold (\<lambda>i. fold (h i) js) is s = fold (\<lambda>p. h (fst p) (snd p)) (List.product is js) s"
  by (induction "is" arbitrary: s) (simp_all add: fold_map comp_def)

subsection \<open>The transpose\<close>

lemma fst_slice_loop:
  assumes "1 < depth"
  shows "fst (slice_loop width height depth cube i s) =
    fold (\<lambda>q. rot_write width height depth cube (i, q)) (List.product [0..<height] [0..<width]) (fst s)"
proof -
  have "fst (slice_loop width height depth cube i s) =
    fold (\<lambda>j. fold (\<lambda>k. rot_write width height depth cube (i, j, k)) [0..<width]) [0..<height] (fst s)"
    unfolding slice_loop_def
    using assms by (intro fst_fold) (simp add: slice_pixel_def rot_write_def Let_def)
  then show ?thesis by (simp add: fold_product)
qed

lemma rotatedCube_publish_xy [simp]:
  "rotatedCube (publish_xy width height depth currentStokes i a st) = rotatedCube st"
  by (simp add: publish_xy_def Let_def)

lemma rotatedCube_slice_iter:
  "rotatedCube (slice_iter width height depth s cube i st) =
     fst (slice_loop width height depth cube i (rotatedCube st, acc_init))"
  by (simp add: slice_iter_def Let_def)

lemma rotatedCube_slice_pass:
  assumes "1 < depth"
  shows "rotatedCube (slice_pass width height depth s cube st) =
     fold (rot_write width height depth cube)
       (List.product [0..<depth] (List.product [0..<height] [0..<width])) (rotatedCube st)"
proof -
  have "rotatedCube (slice_pass width height depth s cube st) =
    fold (\<lambda>i. fold (\<lambda>q. rot_write width height depth cube (i, q)) (List.product [0..<height] [0..<width]))
      [0..<depth] (rotatedCube st)"
    unfolding slice_pass_def
    using assms by (intro rec_fold) (simp add: rotatedCube_slice_iter fst_slice_loop)
  then show ?thesis by (simp add: fold_product)
qed

lemma fold_update_other:
  "p \<notin> f ` set xs \<Longrightarrow> fold (\<lambda>x r. r[f x := v x]) xs rot ! p = rot ! p"
  by (induction xs arbitrary: rot) auto

lemma fold_update_length [simp]:
  "length (fold (\<lambda>x r. r[f x := v x]) xs rot) = length rot"
  by (induction xs arbitrary: rot) auto

text \<open>Stores at pairwise different positions: each position holds what its store wrote.\<close>

lemma fold_update_nth:
  assumes "inj_on f (set xs)" "\<forall>x\<in>set xs. f x < length rot" "y \<in> set xs"
  shows "fold (\<lambda>x r. r[f x := v x]) xs rot ! f y = v y"
  using assms
proof (induction xs arbitrary: rot)
  case Nil
  then show ?case by simp
next
  case (Cons x xs)
  show ?case
  proof (cases "y \<in> set xs")
    case True
    with Cons show ?thesis by simp
  next
    case False
    with Cons.prems have yx: "y = x" by simp
    have "f x \<notin> f ` set xs"
      using Cons.prems(1) False yx by (auto simp: inj_on_def)
    then show ?thesis
      using Cons.prems(2) by (simp add: yx fold_update_other)
  qed
qed

lemma mixed_radix_less:
  fixes a b A B :: nat
  assumes "a < A" "b < B"
  shows "a + A * b < A * B"
proof -
  have "a + A * b < A + A * b" using assms by simp
  also have "\<dots> = A * Suc b" by simp
  also have "\<dots> \<le> A * B" using assms by (intro mult_le_mono2) simp
  finally show ?thesis .
qed

lemma dest_less:
  fixes depth height width :: nat
  assumes "i < depth" "j < height" "k < width"
  shows "i + depth * j + (height * depth) * k < depth * height * width"
proof -
  have "j + height * k < height * width" using assms by (intro mixed_radix_less)
  then have "i + depth * (j + height * k) < depth * (height * width)"
    using assms by (intro mixed_radix_less)
  then show ?thesis by (simp add: algebra_simps)
qed

lemma mixed_radix_inj:
  fixes a b a' b' A :: nat
  assumes "a < A" "a' < A" "a + A * b = a' + A * b'"
  shows "a = a' \<and> b = b'"
proof -
  have "(a + A * b) mod A = (a' + A * b') mod A" using assms(3) by simp
  then have "a = a'" using assms(1,2) by simp
  moreover have "(a + A * b) div A = (a' + A * b') div A" using assms(3) by simp
  then have "b = b'" using assms(1,2) by simp
  ultimately show ?thesis by simp
qed

lemma dest_inj:
  fixes depth height :: nat
  assumes "i < depth" "j < height" "i' < depth" "j' < height"
    "i + depth * j + (height * depth) * k = i' + depth * j' + (height * depth) * k'"
  shows "i = i' \<and> j = j' \<and> k = k'"
proof -
  have "i + depth * (j + height * k) = i' + depth * (j' + height * k')"
    using assms(5) by (simp add: algebra_simps)
  then have 1: "i = i' \<and> j + height * k = j' + height * k'"
    using assms by (intro mixed_radix_inj) auto
  then have "j = j' \<and> k = k'" using assms by (intro mixed_radix_inj) auto
  with 1 show ?thesis by simp
qed

text \<open>
  Claim C1. When \<open>depth > 1\<close>, after the slice-statistics pass the rotated cube holds, for
  every \<open>i < depth\<close>, \<open>j < height\<close> and \<open>k < width\<close>, at \<open>k * (depth * height) + j * depth + i\<close>
  the pixel the standard cube holds at \<open>i * (height * width) + j * width + k\<close>, whatever the
  pixel is: the store does not look at the value, so a NaN is transposed like any other.
\<close>

theorem transpose_bijection:
  assumes "1 < depth" "length (rotatedCube st) = depth * height * width"
    "i < depth" "j < height" "k < width"
  shows "rotatedCube (slice_pass width height depth currentStokes standardCube st)
           ! (k * (depth * height) + j * depth + i) =
         standardCube ! (i * (height * width) + j * width + k)"
proof -
  let ?f = "\<lambda>p::nat \<times> nat \<times> nat. fst p + depth * fst (snd p) + (height * depth) * snd (snd p)"
  let ?v = "\<lambda>p::nat \<times> nat \<times> nat.
    standardCube ! (snd (snd p) + width * fst (snd p) + (height * width) * fst p)"
  let ?xs = "List.product [0..<depth] (List.product [0..<height] [0..<width])"
  have inj: "inj_on ?f (set ?xs)"
    by (auto simp: inj_on_def dest: dest_inj)
  have bound: "\<forall>x\<in>set ?xs. ?f x < length (rotatedCube st)"
    using assms(2) by (auto simp: dest_less)
  have mem: "(i, j, k) \<in> set ?xs" using assms by simp
  have "fold (\<lambda>x r. r[?f x := ?v x]) ?xs (rotatedCube st) ! ?f (i, j, k) = ?v (i, j, k)"
    using inj bound mem by (rule fold_update_nth)
  moreover have "rot_write width height depth standardCube = (\<lambda>x r. r[?f x := ?v x])"
    by (intro ext) (simp add: rot_write_def)
  ultimately show ?thesis
    using assms(1) by (simp add: rotatedCube_slice_pass algebra_simps)
qed

text \<open>A 2 by 1 by 2 cube whose pixel \<open>(i, j, k) = (0, 0, 1)\<close> is a NaN.\<close>

theorem transpose_bijection_witness:
  "(1::nat) < 2 \<and> length (rotatedCube (alloc 2 1 2 1 1)) = 2 * 1 * 2 \<and>
   (0::nat) < 2 \<and> (0::nat) < 1 \<and> (1::nat) < 2 \<and>
   rotatedCube (slice_pass 2 1 2 0 [Fin 1, NaN, Fin 3, Fin 4] (alloc 2 1 2 1 1))
     ! (1 * (2 * 1) + 0 * 2 + 0) = NaN"
  using transpose_bijection [where depth = 2 and height = 1 and width = 2 and i = 0 and j = 0
      and k = 1 and st = "alloc 2 1 2 1 1" and currentStokes = 0
      and standardCube = "[Fin 1, NaN, Fin 3, Fin 4]"]
  by (simp add: alloc_def)

subsection \<open>Slice statistics\<close>


lemma snd_slice_loop:
  "snd (slice_loop width height depth cube i s) =
    fold stat_step
      (map (\<lambda>q. cube ! (snd q + width * fst q + (height * width) * i)) (List.product [0..<height] [0..<width]))
      (snd s)"
proof -
  have "snd (slice_loop width height depth cube i s) =
    fold (\<lambda>j. fold (\<lambda>k. stat_step (cube ! (k + width * j + (height * width) * i))) [0..<width])
      [0..<height] (snd s)"
    unfolding slice_loop_def
    by (intro snd_fold) (simp add: slice_pixel_def Let_def)
  then show ?thesis by (simp add: fold_product fold_map comp_def)
qed

lemma product_upt_nth:
  assumes "n < height * width"
  shows "List.product [0..<height] [0..<width] ! n = (n div width, n mod width)"
proof -
  have w: "0 < width" using assms by (cases width) auto
  have "n div width < height" using assms w by (simp add: less_mult_imp_div_less mult.commute)
  then show ?thesis using assms w by (simp add: List.product_nth)
qed

lemma slice_vals_eq:
  assumes "i * (height * width) + height * width \<le> length cube"
  shows "map (\<lambda>q. cube ! (snd q + width * fst q + (height * width) * i))
           (List.product [0..<height] [0..<width]) = slice_vals width height cube i"
proof (rule nth_equalityI)
  show "length (map (\<lambda>q. cube ! (snd q + width * fst q + (height * width) * i))
           (List.product [0..<height] [0..<width])) = length (slice_vals width height cube i)"
    using assms by (simp add: slice_vals_def)
next
  fix n
  assume "n < length (map (\<lambda>q. cube ! (snd q + width * fst q + (height * width) * i))
           (List.product [0..<height] [0..<width]))"
  then have n: "n < height * width" by simp
  have "n mod width + width * (n div width) = n" by simp
  then show "map (\<lambda>q. cube ! (snd q + width * fst q + (height * width) * i))
           (List.product [0..<height] [0..<width]) ! n = slice_vals width height cube i ! n"
    using n assms by (simp add: product_upt_nth slice_vals_def add.commute mult.commute)
qed

lemma snd_slice_loop_acc:
  assumes "i * (height * width) + height * width \<le> length cube"
  shows "snd (slice_loop width height depth cube i (rot, acc_init)) = slice_acc width height cube i"
  using assms by (simp add: snd_slice_loop slice_vals_eq slice_acc_def)


lemma snd_slice_loop_rot:
  "snd (slice_loop width height depth cube i (rot, a)) = snd (slice_loop width height depth cube i ([], a))"
  by (simp add: snd_slice_loop)

lemma slice_iter_arrays:
  "minValsXY (slice_iter width height depth s cube i st) =
     (minValsXY st)[s * depth + i := pub_min width height (snd (slice_loop width height depth cube i ([], acc_init)))]"
  "maxValsXY (slice_iter width height depth s cube i st) =
     (maxValsXY st)[s * depth + i := pub_max width height (snd (slice_loop width height depth cube i ([], acc_init)))]"
  "meanValsXY (slice_iter width height depth s cube i st) =
     (meanValsXY st)[s * depth + i := pub_mean width height (snd (slice_loop width height depth cube i ([], acc_init)))]"
  "nanValsXY (slice_iter width height depth s cube i st) =
     (nanValsXY st)[s * depth + i := nanCount (snd (slice_loop width height depth cube i ([], acc_init)))]"
  using snd_slice_loop_rot [of width height depth cube i "rotatedCube st" acc_init]
  by (simp_all add: slice_iter_def publish_xy_def Let_def pub_min_def pub_max_def pub_mean_def)

lemma slice_pass_arrays:
  "minValsXY (slice_pass width height depth s cube st) =
     fold (\<lambda>i r. r[s * depth + i := pub_min width height (snd (slice_loop width height depth cube i ([], acc_init)))])
       [0..<depth] (minValsXY st)"
  "maxValsXY (slice_pass width height depth s cube st) =
     fold (\<lambda>i r. r[s * depth + i := pub_max width height (snd (slice_loop width height depth cube i ([], acc_init)))])
       [0..<depth] (maxValsXY st)"
  "meanValsXY (slice_pass width height depth s cube st) =
     fold (\<lambda>i r. r[s * depth + i := pub_mean width height (snd (slice_loop width height depth cube i ([], acc_init)))])
       [0..<depth] (meanValsXY st)"
  "nanValsXY (slice_pass width height depth s cube st) =
     fold (\<lambda>i r. r[s * depth + i := nanCount (snd (slice_loop width height depth cube i ([], acc_init)))])
       [0..<depth] (nanValsXY st)"
  unfolding slice_pass_def
  by (intro rec_fold slice_iter_arrays)+

lemma fold_upt_update_nth:
  assumes "base + n \<le> length r" "z < n"
  shows "fold (\<lambda>i r. r[base + i := v i]) [0..<n] r ! (base + z) = v z"
  using fold_update_nth [where f = "\<lambda>i. base + i" and xs = "[0..<n]" and rot = r and y = z and v = v]
    assms by (simp add: inj_on_def)

lemma slice_index:
  fixes depth stokes :: nat
  assumes "s < stokes" "z < depth"
  shows "s * depth + depth \<le> depth * stokes"
proof -
  have "Suc s * depth \<le> stokes * depth" using assms by (intro mult_le_mono1) simp
  then show ?thesis by (simp add: mult.commute)
qed

lemma slice_in_cube:
  fixes depth height width :: nat
  assumes "z < depth" "length cube = depth * height * width"
  shows "z * (height * width) + height * width \<le> length cube"
proof -
  have "Suc z * (height * width) \<le> depth * (height * width)"
    using assms by (intro mult_le_mono1) simp
  then show ?thesis using assms by (simp add: mult.assoc)
qed

lemma slice_pass_xy:
  assumes "allocated width height depth stokes numBins st" "s < stokes" "z < depth"
    "length cube = depth * height * width"
  shows "minValsXY (slice_pass width height depth s cube st) ! (s * depth + z) =
           pub_min width height (slice_acc width height cube z)"
    "maxValsXY (slice_pass width height depth s cube st) ! (s * depth + z) =
           pub_max width height (slice_acc width height cube z)"
    "meanValsXY (slice_pass width height depth s cube st) ! (s * depth + z) =
           pub_mean width height (slice_acc width height cube z)"
    "nanValsXY (slice_pass width height depth s cube st) ! (s * depth + z) =
           nanCount (slice_acc width height cube z)"
  using assms slice_index [of s stokes z depth] slice_in_cube [of z depth cube height width]
  by (simp_all add: slice_pass_arrays allocated_def fold_upt_update_nth snd_slice_loop_acc)

lemma fold_stat_step:
  "nanCount (fold stat_step vs a) = nanCount a + int (length (filter isnan vs))"
  "sumVal (fold stat_step vs a) = foldl f32_add (sumVal a) (filter (\<lambda>v. \<not> isnan v) vs)"
  "minVal (fold stat_step vs a) = foldl std_min (minVal a) (filter (\<lambda>v. \<not> isnan v) vs)"
  "maxVal (fold stat_step vs a) = foldl std_max (maxVal a) (filter (\<lambda>v. \<not> isnan v) vs)"
  by (induction vs arbitrary: a) (simp_all add: stat_step_def)

lemma fp_le_refl: "\<not> isnan x \<Longrightarrow> fp_le x x"
  by (cases x) (simp_all add: fp_le_def isnan_def)

lemma fp_less_le_trans:
  "fp_less x m \<Longrightarrow> fp_le m y \<Longrightarrow> fp_le x y"
  by (cases x; cases m; cases y) (simp_all add: fp_le_def isnan_def)

lemma fp_le_less_trans:
  "fp_le y m \<Longrightarrow> fp_less m x \<Longrightarrow> fp_le y x"
  by (cases x; cases m; cases y) (simp_all add: fp_le_def isnan_def)

lemma is_least_std_min:
  assumes "is_least S m" "\<not> isnan x" "\<not> isnan m"
  shows "is_least (insert x S) (std_min m x)"
proof (cases "fp_less x m")
  case True
  then show ?thesis
    using assms by (auto simp: is_least_def std_min_def fp_le_refl intro: fp_less_le_trans)
next
  case False
  then show ?thesis
    using assms by (auto simp: is_least_def std_min_def fp_le_def)
qed

lemma is_greatest_std_max:
  assumes "is_greatest S m" "\<not> isnan x" "\<not> isnan m"
  shows "is_greatest (insert x S) (std_max m x)"
proof (cases "fp_less m x")
  case True
  then show ?thesis
    using assms by (auto simp: is_greatest_def std_max_def fp_le_refl intro: fp_le_less_trans)
next
  case False
  then show ?thesis
    using assms by (auto simp: is_greatest_def std_max_def fp_le_def)
qed

lemma std_min_not_nan: "\<not> isnan m \<Longrightarrow> \<not> isnan x \<Longrightarrow> \<not> isnan (std_min m x)"
  by (simp add: std_min_def)

lemma std_max_not_nan: "\<not> isnan m \<Longrightarrow> \<not> isnan x \<Longrightarrow> \<not> isnan (std_max m x)"
  by (simp add: std_max_def)

lemma foldl_std_min:
  assumes "\<not> isnan m0" "\<forall>x\<in>set xs. \<not> isnan x"
  shows "is_least (insert m0 (set xs)) (foldl std_min m0 xs) \<and> \<not> isnan (foldl std_min m0 xs)"
  using assms(2)
proof (induction xs rule: rev_induct)
  case Nil
  then show ?case using assms(1) by (simp add: is_least_def fp_le_refl)
next
  case (snoc x xs)
  then have "is_least (insert x (insert m0 (set xs))) (std_min (foldl std_min m0 xs) x)"
    by (intro is_least_std_min) simp_all
  then show ?case using snoc by (simp add: insert_commute std_min_not_nan)
qed

lemma foldl_std_max:
  assumes "\<not> isnan m0" "\<forall>x\<in>set xs. \<not> isnan x"
  shows "is_greatest (insert m0 (set xs)) (foldl std_max m0 xs) \<and> \<not> isnan (foldl std_max m0 xs)"
  using assms(2)
proof (induction xs rule: rev_induct)
  case Nil
  then show ?case using assms(1) by (simp add: is_greatest_def fp_le_refl)
next
  case (snoc x xs)
  then have "is_greatest (insert x (insert m0 (set xs))) (std_max (foldl std_max m0 xs) x)"
    by (intro is_greatest_std_max) simp_all
  then show ?case using snoc by (simp add: insert_commute std_max_not_nan)
qed

lemma slice_acc_fields:
  "nanCount (slice_acc width height cube z) = int (length (filter isnan (slice_vals width height cube z)))"
  "sumVal (slice_acc width height cube z) =
     foldl f32_add (Fin 0) (filter (\<lambda>v. \<not> isnan v) (slice_vals width height cube z))"
  "minVal (slice_acc width height cube z) =
     foldl std_min FLT_MAX (filter (\<lambda>v. \<not> isnan v) (slice_vals width height cube z))"
  "maxVal (slice_acc width height cube z) =
     foldl std_max (fp_neg FLT_MAX) (filter (\<lambda>v. \<not> isnan v) (slice_vals width height cube z))"
  by (simp_all add: slice_acc_def fold_stat_step acc_init_def)

lemma fp_le_antisym: "fp_le a b \<Longrightarrow> fp_le b a \<Longrightarrow> a = b"
  by (cases a; cases b) (simp_all add: fp_le_def isnan_def)

lemma is_least_drop:
  assumes "is_least (insert s S) m" "v \<in> S" "fp_le v s"
  shows "is_least S m"
proof (cases "m \<in> S")
  case True
  then show ?thesis using assms(1) by (simp add: is_least_def)
next
  case False
  then have ms: "m = s" using assms(1) by (simp add: is_least_def)
  then have "fp_le s v" using assms(1,2) by (simp add: is_least_def)
  then have "v = s" using assms(3) by (intro fp_le_antisym)
  then show ?thesis using False ms assms(2) by simp
qed

lemma least_nonnan_drop:
  assumes mn: "is_least (insert FLT_MAX (set (filter (\<lambda>v. \<not> isnan v) vs))) m"
   and "v \<in> set vs" "fp_le v FLT_MAX"
  shows "is_least (set (filter (\<lambda>v. \<not> isnan v) vs)) m"
proof -
  have "v \<in> set (filter (\<lambda>v. \<not> isnan v) vs)" using assms(2,3) by (simp add: fp_le_def)
  then show ?thesis by (rule is_least_drop [OF mn _ assms(3)])
qed


lemma is_greatest_drop:
  assumes "is_greatest (insert s S) m" "v \<in> S" "fp_le s v"
  shows "is_greatest S m"
proof (cases "m \<in> S")
  case True
  then show ?thesis using assms(1) by (simp add: is_greatest_def)
next
  case False
  then have ms: "m = s" using assms(1) by (simp add: is_greatest_def)
  then have "fp_le v s" using assms(1,2) by (simp add: is_greatest_def)
  then have "s = v" using assms(3) by (intro fp_le_antisym)
  then show ?thesis using False ms assms(2) by simp
qed

lemma greatest_nonnan_drop:
  assumes mx: "is_greatest (insert s (set (filter (\<lambda>v. \<not> isnan v) vs))) m"
   and "v \<in> set vs" "fp_le s v"
  shows "is_greatest (set (filter (\<lambda>v. \<not> isnan v) vs)) m"
proof -
  have "v \<in> set (filter (\<lambda>v. \<not> isnan v) vs)" using assms(2,3) by (simp add: fp_le_def)
  then show ?thesis by (rule is_greatest_drop [OF mx _ assms(3)])
qed

text \<open>
  Claim C3, as amended. After the slice-statistics pass of polarization \<open>s\<close>, for every
  slice \<open>z < depth\<close>: \<open>nanXY[s,z]\<close> is the number of NaN pixels of the slice and lies between
  0 and \<open>height * width\<close>. If it equals \<open>height * width\<close>, the published minimum, maximum and
  mean are NaN. Otherwise the mean is the binary32 sum of the non-NaN pixels, added in
  row-major order from 0, divided in binary32 by \<open>height * width - nanXY[s,z]\<close>; the minimum
  is the least of \<open>FLT_MAX\<close> and the non-NaN pixels, the maximum the greatest of \<open>- FLT_MAX\<close>
  and the non-NaN pixels. So the minimum is the least non-NaN pixel as soon as one pixel is
  at most \<open>FLT_MAX\<close>, and the maximum the greatest non-NaN pixel as soon as one pixel is at
  least \<open>- FLT_MAX\<close>.
\<close>

theorem slice_statistics:
  assumes "allocated width height depth stokes numBins st" "s < stokes" "z < depth"
    "length standardCube = depth * height * width"
  shows "nanValsXY (slice_pass width height depth s standardCube st) ! (s * depth + z) =
           int (length (filter isnan (slice_vals width height standardCube z))) \<and>
         0 \<le> nanValsXY (slice_pass width height depth s standardCube st) ! (s * depth + z) \<and>
         nanValsXY (slice_pass width height depth s standardCube st) ! (s * depth + z)
           \<le> int (height * width) \<and>
         (if nanValsXY (slice_pass width height depth s standardCube st) ! (s * depth + z)
               = int (height * width)
          then isnan (minValsXY (slice_pass width height depth s standardCube st) ! (s * depth + z)) \<and>
               isnan (maxValsXY (slice_pass width height depth s standardCube st) ! (s * depth + z)) \<and>
               isnan (meanValsXY (slice_pass width height depth s standardCube st) ! (s * depth + z))
          else meanValsXY (slice_pass width height depth s standardCube st) ! (s * depth + z) =
                 f32_div (foldl f32_add (Fin 0)
                            (filter (\<lambda>v. \<not> isnan v) (slice_vals width height standardCube z)))
                   (f32_of_int (int (height * width)
                      - nanValsXY (slice_pass width height depth s standardCube st) ! (s * depth + z))) \<and>
               is_least (insert FLT_MAX
                    (set (filter (\<lambda>v. \<not> isnan v) (slice_vals width height standardCube z))))
                 (minValsXY (slice_pass width height depth s standardCube st) ! (s * depth + z)) \<and>
               is_greatest (insert (fp_neg FLT_MAX)
                    (set (filter (\<lambda>v. \<not> isnan v) (slice_vals width height standardCube z))))
                 (maxValsXY (slice_pass width height depth s standardCube st) ! (s * depth + z)) \<and>
               ((\<exists>v\<in>set (slice_vals width height standardCube z). fp_le v FLT_MAX) \<longrightarrow>
                is_least (set (filter (\<lambda>v. \<not> isnan v) (slice_vals width height standardCube z)))
                 (minValsXY (slice_pass width height depth s standardCube st) ! (s * depth + z))) \<and>
               ((\<exists>v\<in>set (slice_vals width height standardCube z). fp_le (fp_neg FLT_MAX) v) \<longrightarrow>
                is_greatest (set (filter (\<lambda>v. \<not> isnan v) (slice_vals width height standardCube z)))
                 (maxValsXY (slice_pass width height depth s standardCube st) ! (s * depth + z))))"
proof -
  let ?vs = "slice_vals width height standardCube z"
  let ?nn = "filter (\<lambda>v. \<not> isnan v) ?vs"
  let ?mn = "foldl std_min FLT_MAX ?nn"
  let ?mx = "foldl std_max (fp_neg FLT_MAX) ?nn"
  have len: "length ?vs = height * width"
    using slice_in_cube [OF assms(3,4)] by (simp add: slice_vals_def)
  have "length (filter isnan ?vs) \<le> height * width"
    using length_filter_le [of isnan ?vs] len by simp
  then have bound: "int (length (filter isnan ?vs)) \<le> int (height * width)"
    by (simp only: of_nat_le_iff)
  have mn: "is_least (insert FLT_MAX (set ?nn)) ?mn"
    using foldl_std_min [of FLT_MAX ?nn] by (simp add: FLT_MAX_def isnan_def)
  have mx: "is_greatest (insert (fp_neg FLT_MAX) (set ?nn)) ?mx"
    using foldl_std_max [of "fp_neg FLT_MAX" ?nn] by (simp add: FLT_MAX_def isnan_def)
  have mn': "(\<exists>v\<in>set ?vs. fp_le v FLT_MAX) \<longrightarrow> is_least (set ?nn) ?mn"
    using least_nonnan_drop [OF mn] by blast
  have mx': "(\<exists>v\<in>set ?vs. fp_le (fp_neg FLT_MAX) v) \<longrightarrow> is_greatest (set ?nn) ?mx"
    using greatest_nonnan_drop [OF mx] by blast
  note P = slice_pass_xy [OF assms]
  show ?thesis
  proof (cases "int (length (filter isnan ?vs)) = int (height * width)")
    case True
    then show ?thesis
      unfolding P pub_min_def pub_max_def pub_mean_def slice_acc_fields
      by (simp add: isnan_def)
  next
    case False
    then show ?thesis
      unfolding P pub_min_def pub_max_def pub_mean_def slice_acc_fields
      using bound mn mx mn' mx' by simp
  qed
qed


lemma allocated_alloc: "allocated width height depth stokes numBins (alloc width height depth stokes numBins)"
  by (simp add: allocated_def alloc_def)

lemma FLT_MAX_less_PInf: "fp_less FLT_MAX PInf" "\<not> fp_less PInf FLT_MAX" "FLT_MAX \<noteq> PInf" "\<not> isnan FLT_MAX"
  by (simp_all add: FLT_MAX_def isnan_def)

text \<open>
  The claim as stated fails on a slice whose only pixel is \<open>+\<infinity>\<close>: the pixel is no NaN, so
  the minimum over the non-NaN pixels is \<open>+\<infinity>\<close>, but the accumulator starts at \<open>FLT_MAX\<close> and
  \<^verbatim>\<open>std::min\<close> keeps it.
\<close>

theorem slice_min_counterexample:
  "slice_vals 1 1 [PInf] 0 = [PInf] \<and>
   nanValsXY (slice_pass 1 1 1 0 [PInf] (alloc 1 1 1 1 1)) ! 0 = 0 \<and>
   minValsXY (slice_pass 1 1 1 0 [PInf] (alloc 1 1 1 1 1)) ! 0 = FLT_MAX \<and>
   \<not> is_least {PInf} FLT_MAX"
proof -
  have v: "slice_vals 1 1 [PInf] 0 = [PInf]" by (simp add: slice_vals_def)
  have a: "allocated 1 1 1 1 1 (alloc 1 1 1 1 1)" by (rule allocated_alloc)
  have n: "nanValsXY (slice_pass 1 1 1 0 [PInf] (alloc 1 1 1 1 1)) ! (0 * 1 + 0) = 0"
    using slice_pass_xy(4) [OF a, of 0 0 "[PInf]"] unfolding slice_acc_fields v
    by (simp add: isnan_def)
  have m: "minValsXY (slice_pass 1 1 1 0 [PInf] (alloc 1 1 1 1 1)) ! (0 * 1 + 0) = FLT_MAX"
    using slice_pass_xy(1) [OF a, of 0 0 "[PInf]"] unfolding pub_min_def slice_acc_fields v
    by (simp add: isnan_def std_min_def FLT_MAX_def)
  show ?thesis using v n m by (simp add: is_least_def FLT_MAX_def)
qed

text \<open>The second slice of the 2 by 2 by 2 cube \<open>1, 2, 3, 4, 5, 6, 7, NaN\<close>.\<close>

lemma mean567:
  "f32_div (f32_add (f32_add (f32_add (Fin 0) (Fin 5)) (Fin 6)) (Fin 7)) (f32_of_int 3) = Fin 6"
  by code_simp

theorem slice_statistics_witness:
  "allocated 2 2 2 1 1 (alloc 2 2 2 1 1) \<and> (0::nat) < 1 \<and> (1::nat) < 2 \<and>
   length [Fin 1, Fin 2, Fin 3, Fin 4, Fin 5, Fin 6, Fin 7, NaN] = 2 * 2 * 2 \<and>
   nanValsXY (slice_pass 2 2 2 0 [Fin 1, Fin 2, Fin 3, Fin 4, Fin 5, Fin 6, Fin 7, NaN] (alloc 2 2 2 1 1)) ! 1 = 1 \<and>
   meanValsXY (slice_pass 2 2 2 0 [Fin 1, Fin 2, Fin 3, Fin 4, Fin 5, Fin 6, Fin 7, NaN] (alloc 2 2 2 1 1)) ! 1 = Fin 6 \<and>
   is_least {FLT_MAX, Fin 5, Fin 6, Fin 7}
     (minValsXY (slice_pass 2 2 2 0 [Fin 1, Fin 2, Fin 3, Fin 4, Fin 5, Fin 6, Fin 7, NaN] (alloc 2 2 2 1 1)) ! 1)"
proof -
  have v: "slice_vals 2 2 [Fin 1, Fin 2, Fin 3, Fin 4, Fin 5, Fin 6, Fin 7, NaN] 1 = [Fin 5, Fin 6, Fin 7, NaN]"
    by (simp add: slice_vals_def)
  have a: "allocated 2 2 2 1 1 (alloc 2 2 2 1 1)" by (rule allocated_alloc)
  show ?thesis
    using slice_statistics [OF a, where s = 0 and z = 1
        and standardCube = "[Fin 1, Fin 2, Fin 3, Fin 4, Fin 5, Fin 6, Fin 7, NaN]"] a
    unfolding v by (auto simp: isnan_def mean567 split: if_splits)
qed

subsection \<open>The output file name\<close>

text \<open>
  Claim C9 at the input \<^verbatim>\<open>data.txt\<close>. \<^verbatim>\<open>find_last_of(".fits")\<close> finds the last character that is
  one of \<^verbatim>\<open>.\<close>, \<^verbatim>\<open>f\<close>, \<^verbatim>\<open>i\<close>, \<^verbatim>\<open>t\<close>, \<^verbatim>\<open>s\<close>, here the final \<^verbatim>\<open>t\<close> at position 7, and the
  name is cut at position 3: the program writes \<^verbatim>\<open>dat.hdf5\<close>, where the specification asks
  for \<^verbatim>\<open>data.txt.hdf5\<close>.
\<close>

theorem output_name_failing_input:
  "output_file_name [''hdf_convert'', ''data.txt''] = ''dat.hdf5'' \<and>
   spec_output_name ''data.txt'' = ''data.txt.hdf5''"
  by (simp add: output_file_name_def spec_output_name_def find_last_of_def npos_def size_sub_def
      substr_def)

subsection \<open>Header translation\<close>


lemma mod_sub_ge:
  fixes a b N :: nat
  assumes "b \<le> a" "a < N"
  shows "(a + N - b) mod N = a - b"
proof -
  have "a + N - b = (a - b) + N" using assms by arith
  then have "(a + N - b) mod N = ((a - b) + N) mod N" by (rule arg_cong)
  also have "\<dots> = (a - b) mod N" by (rule mod_add_self2)
  also have "\<dots> = a - b" using assms by (intro mod_less) arith
  finally show ?thesis .
qed

lemma mod_sub_lt:
  fixes a b N :: nat
  assumes "a < b" "b \<le> N"
  shows "(a + N - b) mod N = N - (b - a)"
proof -
  have "a + N - b = N - (b - a)" using assms by arith
  moreover have "N - (b - a) < N" using assms by arith
  ultimately show ?thesis by (simp only: mod_less)
qed

lemma pow64: "(2::nat) ^ 64 = Suc npos"
  by (simp add: npos_def)

lemma size_sub_ge: "b \<le> a \<Longrightarrow> a \<le> npos \<Longrightarrow> size_sub a b = a - b"
  unfolding size_sub_def pow64 by (rule mod_sub_ge) simp_all

lemma size_sub_lt: "a < b \<Longrightarrow> b \<le> npos \<Longrightarrow> size_sub a b = Suc npos - (b - a)"
  unfolding size_sub_def pow64 by (rule mod_sub_lt) simp_all


lemma length_takeWhile_less:
  assumes "c \<in> set s"
  shows "length (takeWhile (\<lambda>x. x \<noteq> c) s) < length s"
  using assms by (induction s) auto

lemma find_char_in: "c \<in> set s \<Longrightarrow> find_char s c = length (takeWhile (\<lambda>x. x \<noteq> c) s)"
  by (simp add: find_char_def)

lemma find_char_npos:
  assumes "length s \<le> npos"
  shows "find_char s c \<noteq> npos \<longleftrightarrow> c \<in> set s"
proof (cases "c \<in> set s")
  case True
  then have "find_char s c < length s" by (simp add: find_char_in length_takeWhile_less)
  then show ?thesis using True assms by simp
next
  case False
  then show ?thesis by (simp add: find_char_def)
qed

lemma attribute_name_eq:
  assumes "CHR ''='' \<in> set r"
  shows "attribute_name r = spec_attribute_name r"
proof -
  have "take (length (takeWhile (\<lambda>x. x \<noteq> CHR ''='') r)) r = takeWhile (\<lambda>x. x \<noteq> CHR ''='') r"
    by (rule takeWhile_eq_take [symmetric])
  then show ?thesis
    using assms by (simp add: attribute_name_def spec_attribute_name_def substr_def find_char_in)
qed

lemma before_last_take:
  assumes "c \<in> set s"
  shows "before_last c s = take (length s - Suc (length (takeWhile (\<lambda>x. x \<noteq> c) (rev s)))) s"
proof -
  have "tl (dropWhile (\<lambda>x. x \<noteq> c) (rev s)) = drop (Suc (length (takeWhile (\<lambda>x. x \<noteq> c) (rev s)))) (rev s)"
    by (simp add: dropWhile_eq_drop drop_Suc tl_drop)
  then show ?thesis using assms by (simp add: before_last_def rev_drop)
qed

lemma find_last_of_single:
  "find_last_of s [c] =
     (if c \<in> set s then length s - 1 - length (takeWhile (\<lambda>x. x \<noteq> c) (rev s)) else npos)"
  by (simp add: find_last_of_def)

text \<open>The field between the first equals sign, at \<open>e\<close>, and the last slash.\<close>

lemma value_field:
  assumes eq: "r ! e = CHR ''=''" and e: "e < length r" and len: "length r \<le> npos"
  shows "substr r (e + 1)
           (if find_last_of r ''/'' \<noteq> npos
            then size_sub (size_sub (find_last_of r ''/'') e) 1 else npos) =
         before_last CHR ''/'' (drop (Suc e) r)"
proof -
  let ?a = "drop (Suc e) r"
  let ?P = "\<lambda>x. x \<noteq> CHR ''/''"
  let ?t = "length (takeWhile ?P (rev r))"
  have la: "length ?a = length r - Suc e" by simp
  have split: "rev r = rev ?a @ rev (take (Suc e) r)"
    by (metis append_take_drop_id rev_append)
  show ?thesis
  proof (cases "CHR ''/'' \<in> set r")
    case False
    then have "CHR ''/'' \<notin> set ?a" by (meson in_set_dropD)
    moreover have "length ?a \<le> npos" using len by simp
    ultimately show ?thesis
      using False by (simp add: find_last_of_single substr_def before_last_def)
  next
    case inr: True
    then have t: "?t < length r"
      using length_takeWhile_less [of "CHR ''/''" "rev r"] by simp
    have c: "find_last_of r ''/'' = length r - 1 - ?t"
      using inr by (simp add: find_last_of_single)
    have cn: "find_last_of r ''/'' \<noteq> npos" using c t len by simp
    show ?thesis
    proof (cases "CHR ''/'' \<in> set ?a")
      case True
      define t' where "t' = length (takeWhile ?P (rev ?a))"
      have "takeWhile ?P (rev r) = takeWhile ?P (rev ?a)"
        unfolding split using True by (intro takeWhile_append1 [where x = "CHR ''/''"]) simp_all
      then have tt: "?t = t'" by (simp add: t'_def)
      have ta: "t' < length ?a"
        unfolding t'_def using length_takeWhile_less [of "CHR ''/''" "rev ?a"] True by simp
      then have ce: "e < length r - 1 - t'" using la by arith
      have c': "find_last_of r ''/'' = length r - 1 - t'" using c tt by simp
      have s1: "size_sub (length r - 1 - t') e = length r - 1 - t' - e"
        using ce len by (intro size_sub_ge) arith+
      have s2: "size_sub (length r - 1 - t' - e) 1 = length r - 1 - t' - e - 1"
        using ce len by (intro size_sub_ge) arith+
      have "length r - 1 - t' - e - 1 = length ?a - Suc t'" using la by arith
      then have endpos: "size_sub (size_sub (find_last_of r ''/'') e) 1 = length ?a - Suc t'"
        by (simp only: c' s1 s2)
      have bl: "before_last CHR ''/'' ?a = take (length ?a - Suc t') ?a"
        unfolding t'_def using True by (rule before_last_take)
      have "substr r (e + 1)
           (if find_last_of r ''/'' \<noteq> npos
            then size_sub (size_sub (find_last_of r ''/'') e) 1 else npos) =
            take (length ?a - Suc t') (drop (e + 1) r)"
        using cn by (simp only: endpos substr_def if_True not_False_eq_True)
      then show ?thesis using bl by simp
    next
      case False
      then have tw: "takeWhile ?P (rev r) = rev ?a @ takeWhile ?P (rev (take (Suc e) r))"
        unfolding split by (intro takeWhile_append2) auto
      then have "length ?a \<le> ?t" by simp
      then have ce: "length r - 1 - ?t \<le> e" using la by arith
      have "length ?a \<le> size_sub (size_sub (length r - 1 - ?t) e) 1"
      proof (cases "length r - 1 - ?t = e")
        case True
        then have "size_sub (length r - 1 - ?t) e = 0" using e len by (simp add: size_sub_ge)
        moreover have "size_sub 0 1 = Suc npos - (1 - 0)"
          by (rule size_sub_lt) (simp_all add: npos_def)
        then have "size_sub 0 1 = npos" by simp
        ultimately show ?thesis using len by simp
      next
        case ne: False
        then have lt: "length r - 1 - ?t < e" using ce by arith
        then have s1: "size_sub (length r - 1 - ?t) e = Suc npos - (e - (length r - 1 - ?t))"
          using e len by (intro size_sub_lt) arith+
        have "1 \<le> Suc npos - (e - (length r - 1 - ?t))" using e len by arith
        moreover have "Suc npos - (e - (length r - 1 - ?t)) \<le> npos" using lt by arith
        ultimately have s2: "size_sub (Suc npos - (e - (length r - 1 - ?t))) 1 =
            Suc npos - (e - (length r - 1 - ?t)) - 1"
          by (intro size_sub_ge)
        show ?thesis unfolding s1 s2 using la e len by arith
      qed
      then show ?thesis
        using False cn by (simp add: c substr_def before_last_def)
    qed
  qed
qed


lemma npos_ge: "255 \<le> npos" "0 < npos"
  by (simp_all add: npos_def)

lemma unquote_eq:
  assumes len: "length v < npos"
  shows "(if 2 \<le> length v \<and> find_char v (CHR 0x27) = 0 \<and>
             find_last_of v [CHR 0x27] = length v - 1
          then trim (substr v 1 (length v - 2)) else v) = unquote v"
proof (cases "2 \<le> length v")
  case False
  then show ?thesis by (simp add: unquote_def)
next
  case True
  let ?q = "CHR 0x27"
  have ne: "v \<noteq> []" using True by auto
  have A: "find_char v ?q = 0 \<longleftrightarrow> hd v = ?q"
  proof (cases "?q \<in> set v")
    case True
    then show ?thesis using ne by (simp add: find_char_in takeWhile_eq_Nil_iff)
  next
    case False
    then have "hd v \<noteq> ?q" using ne hd_in_set by metis
    then show ?thesis using False npos_ge(2) by (simp add: find_char_def)
  qed
  have B: "find_last_of v [?q] = length v - 1 \<longleftrightarrow> last v = ?q"
  proof (cases "?q \<in> set v")
    case True
    then have "length (takeWhile (\<lambda>x. x \<noteq> ?q) (rev v)) < length v"
      using length_takeWhile_less [of ?q "rev v"] by simp
    then have "length v - 1 - length (takeWhile (\<lambda>x. x \<noteq> ?q) (rev v)) = length v - 1
        \<longleftrightarrow> length (takeWhile (\<lambda>x. x \<noteq> ?q) (rev v)) = 0"
      by arith
    then have "find_last_of v [?q] = length v - 1 \<longleftrightarrow> takeWhile (\<lambda>x. x \<noteq> ?q) (rev v) = []"
      using True by (simp add: find_last_of_single)
    then show ?thesis using ne by (simp add: takeWhile_eq_Nil_iff hd_rev)
  next
    case False
    then have "last v \<noteq> ?q" using ne last_in_set by metis
    moreover have "npos \<noteq> length v - 1" using len by arith
    ultimately show ?thesis using False by (simp add: find_last_of_single)
  qed
  have C: "substr v 1 (length v - 2) = butlast (tl v)"
    by (simp add: substr_def butlast_conv_take drop_Suc numeral_2_eq_2)
  show ?thesis by (simp only: A B C unquote_def)
qed

lemma length_trim_le: "length (trim s) \<le> length s"
proof -
  have "length (dropWhile isspace (rev (dropWhile isspace s))) \<le> length (rev (dropWhile isspace s))"
    by (rule length_dropWhile_le)
  also have "\<dots> \<le> length s" by (simp add: length_dropWhile_le)
  finally show ?thesis by (simp add: trim_def rtrim_def ltrim_def)
qed

lemma length_before_last_le: "length (before_last c s) \<le> length s"
proof -
  have "length (tl (dropWhile (\<lambda>x. x \<noteq> c) (rev s))) \<le> length (rev s)"
    using length_dropWhile_le [of "\<lambda>x. x \<noteq> c" "rev s"] by simp
  then show ?thesis by (simp add: before_last_def)
qed

text \<open>The source's parsing of a record is the translation the specification words.\<close>

lemma attribute_value_eq:
  assumes eq: "CHR ''='' \<in> set r" and len: "length r < 255"
  shows "attribute_value r = spec_attribute_value r"
proof -
  let ?e = "length (takeWhile (\<lambda>x. x \<noteq> CHR ''='') r)"
  let ?f = "before_last CHR ''/'' (drop (Suc ?e) r)"
  have e: "?e < length r" using eq by (rule length_takeWhile_less)
  have fc: "find_char r CHR ''='' = ?e" using eq by (rule find_char_in)
  have at: "r ! ?e = CHR ''=''" using nth_length_takeWhile [OF e] by simp
  have ln: "length r \<le> npos" using len npos_ge(1) by arith
  have field: "substr r (?e + 1)
           (if find_last_of r ''/'' \<noteq> npos
            then size_sub (size_sub (find_last_of r ''/'') ?e) 1 else npos) = ?f"
    using at e ln by (rule value_field)
  have "length (trim ?f) \<le> length ?f" by (rule length_trim_le)
  also have "\<dots> \<le> length (drop (Suc ?e) r)" by (rule length_before_last_le)
  also have "\<dots> \<le> length r" by simp
  finally have "length (trim ?f) < npos" using len npos_ge(1) by arith
  then have uq: "(if 2 \<le> length (trim ?f) \<and> find_char (trim ?f) (CHR 0x27) = 0 \<and>
             find_last_of (trim ?f) [CHR 0x27] = length (trim ?f) - 1
          then trim (substr (trim ?f) 1 (length (trim ?f) - 2)) else trim ?f) = unquote (trim ?f)"
    by (rule unquote_eq)
  have sp: "tl (dropWhile (\<lambda>c. c \<noteq> CHR ''='') r) = drop (Suc ?e) r"
    by (simp add: dropWhile_eq_drop drop_Suc tl_drop)
  show ?thesis
    unfolding attribute_value_def spec_attribute_value_def Let_def fc field sp using uq by simp
qed

lemma is_keyword_record_iff:
  assumes "length r < 255"
  shows "is_keyword_record r \<longleftrightarrow>
     \<not> starts_with r ''COMMENT'' \<and> \<not> starts_with r ''HISTORY'' \<and> CHR ''='' \<in> set r"
proof -
  have "length r \<le> npos" using assms npos_ge(1) by arith
  then show ?thesis by (simp add: is_keyword_record_def find_char_npos)
qed


lemma attrExists_map_of: "attrExists a n \<longleftrightarrow> map_of a n \<noteq> None"
  by (simp add: attrExists_def map_of_eq_None_iff)

lemma header_record_keyword:
  assumes "is_keyword_record r"
  shows "header_record r g =
     (if \<not> attrExists (attrs g) (attribute_name r)
      then g\<lparr>attrs := attrs g @ [(attribute_name r, attribute_value r)]\<rparr>
      else g\<lparr>warnings := warnings g
             @ [''Warning: Skipping duplicate attribute '' @ [CHR 0x27] @ attribute_name r @ [CHR 0x27]]\<rparr>)"
  using assms by (simp add: header_record_def is_keyword_record_def Let_def)

lemma header_record_other:
  assumes "\<not> is_keyword_record r"
  shows "header_record r g = g"
  using assms by (auto simp: header_record_def is_keyword_record_def)

lemma map_of_snoc:
  "map_of (a @ [(n, v)]) m = (case map_of a m of Some w \<Rightarrow> Some w | None \<Rightarrow> if m = n then Some v else None)"
  by (simp add: map_add_def split: option.splits)

lemma map_of_fold_header:
  "map_of (attrs (fold header_record rs g)) nm =
     (case map_of (attrs g) nm of
        Some v \<Rightarrow> Some v
      | None \<Rightarrow> map_option attribute_value
                 (find (\<lambda>r. is_keyword_record r \<and> attribute_name r = nm) rs))"
proof (induction rs arbitrary: g)
  case Nil
  then show ?case by (simp split: option.splits)
next
  case (Cons r rs)
  show ?case
  proof (cases "is_keyword_record r")
    case False
    then show ?thesis
      using Cons.IH [of g] by (simp add: header_record_other split: option.splits)
  next
    case kw: True
    show ?thesis
    proof (cases "attrExists (attrs g) (attribute_name r)")
      case True
      then have "attrs (header_record r g) = attrs g"
        using kw by (simp add: header_record_keyword)
      moreover have "nm = attribute_name r \<Longrightarrow> map_of (attrs g) nm \<noteq> None"
        using True by (simp add: attrExists_map_of)
      ultimately show ?thesis
        using Cons.IH [of "header_record r g"] kw by (auto split: option.splits)
    next
      case False
      then have a: "attrs (header_record r g) = attrs g @ [(attribute_name r, attribute_value r)]"
        using kw by (simp add: header_record_keyword)
      have n: "map_of (attrs g) (attribute_name r) = None"
        using False by (simp add: attrExists_map_of)
      show ?thesis
        using Cons.IH [of "header_record r g"] kw n
        by (auto simp: a map_of_snoc split: option.splits)
    qed
  qed
qed

lemma distinct_fold_header:
  assumes "distinct (map fst (attrs g))"
  shows "distinct (map fst (attrs (fold header_record rs g)))"
  using assms
proof (induction rs arbitrary: g)
  case Nil
  then show ?case by simp
next
  case (Cons r rs)
  have "distinct (map fst (attrs (header_record r g)))"
  proof (cases "is_keyword_record r")
    case True
    then show ?thesis using Cons.prems by (auto simp: header_record_keyword attrExists_def)
  next
    case False
    then show ?thesis using Cons.prems by (simp add: header_record_other)
  qed
  then show ?case using Cons.IH by simp
qed

lemma count_fold_header:
  "length (attrs (fold header_record rs g)) + length (warnings (fold header_record rs g)) =
     length (attrs g) + length (warnings g) + length (filter is_keyword_record rs)"
proof (induction rs arbitrary: g)
  case Nil
  then show ?case by simp
next
  case (Cons r rs)
  have "length (attrs (header_record r g)) + length (warnings (header_record r g)) =
      length (attrs g) + length (warnings g) + (if is_keyword_record r then 1 else 0)"
    by (simp add: header_record_keyword header_record_other)
  then show ?case using Cons.IH [of "header_record r g"] by simp
qed

lemma distinct_filter_one:
  assumes "distinct (map fst a)" "map_of a n = Some v"
  shows "filter (\<lambda>p. fst p = n) a = [(n, v)]"
  using assms
proof (induction a)
  case Nil
  then show ?case by simp
next
  case (Cons p a)
  show ?case
  proof (cases "fst p = n")
    case True
    then have "n \<notin> fst ` set a" using Cons.prems(1) by auto
    then have "filter (\<lambda>p. fst p = n) a = []" by (auto simp: filter_empty_conv)
    then show ?thesis using True Cons.prems(2) by (cases p) simp
  next
    case False
    then show ?thesis using Cons by (cases p) auto
  qed
qed


lemma translate_headers_fold:
  "translate_headers cards n g = fold header_record (map cards [0..<n]) g"
  by (simp add: translate_headers_def fold_map comp_def)

lemma initial_distinct: "distinct (map fst (attrs initial_hdr))"
  by (simp add: initial_hdr_def)

text \<open>
  The loop on the records it is handed. Take the records that \<^verbatim>\<open>fits_read_record\<close> hands to
  the loop, none longer than
  the 254 characters of \<^verbatim>\<open>headerTmp\<close>, and one of them, record \<open>i\<close>, that starts with neither
  \<^verbatim>\<open>COMMENT\<close> nor \<^verbatim>\<open>HISTORY\<close> and holds an \<^verbatim>\<open>=\<close>. After the loop the root group holds exactly
  one attribute with the record's name, the trimmed text before its first \<^verbatim>\<open>=\<close>. Its value
  is the translated value (the text after the first \<^verbatim>\<open>=\<close> up to the last \<^verbatim>\<open>/\<close>, or to the
  record's end, trimmed, one pair of wrapping single quotes stripped, trimmed again) of the
  first record \<open>j \<le> i\<close> with that name, unless the name is one of the three attributes the
  converter writes before the loop, which then keeps its value. Where the name exists
  already, the record adds one warning and leaves the attributes as they are; where it does
  not, the record appends the attribute with its own translated value.
\<close>

lemma header_translation:
  assumes "i < numHeaders"
    and "\<not> starts_with (cards i) ''COMMENT''" "\<not> starts_with (cards i) ''HISTORY''"
    and "CHR ''='' \<in> set (cards i)"
    and "\<forall>j<numHeaders. length (cards j) < 255"
  shows "(\<exists>j\<le>i. is_keyword_record (cards j) \<and>
            spec_attribute_name (cards j) = spec_attribute_name (cards i) \<and>
            (\<forall>k<j. \<not> (is_keyword_record (cards k) \<and>
                        spec_attribute_name (cards k) = spec_attribute_name (cards i))) \<and>
            filter (\<lambda>p. fst p = spec_attribute_name (cards i))
                (attrs (translate_headers cards numHeaders initial_hdr)) =
              [(spec_attribute_name (cards i),
                case map_of (attrs initial_hdr) (spec_attribute_name (cards i)) of
                  Some v \<Rightarrow> v
                | None \<Rightarrow> spec_attribute_value (cards j))]) \<and>
         (\<forall>g. attrExists (attrs g) (spec_attribute_name (cards i)) \<longrightarrow>
              attrs (header_record (cards i) g) = attrs g \<and>
              warnings (header_record (cards i) g) =
                warnings g @ [''Warning: Skipping duplicate attribute '' @ [CHR 0x27]
                                @ spec_attribute_name (cards i) @ [CHR 0x27]]) \<and>
         (\<forall>g. \<not> attrExists (attrs g) (spec_attribute_name (cards i)) \<longrightarrow>
              header_record (cards i) g =
                g\<lparr>attrs := attrs g @ [(spec_attribute_name (cards i), spec_attribute_value (cards i))]\<rparr>)"
proof -
  let ?nm = "spec_attribute_name (cards i)"
  let ?rs = "map cards [0..<numHeaders]"
  let ?P = "\<lambda>r. is_keyword_record r \<and> attribute_name r = ?nm"
  let ?g = "translate_headers cards numHeaders initial_hdr"
  have len: "length (cards j) < 255" if "j < numHeaders" for j using assms(5) that by simp
  have kwi: "is_keyword_record (cards i)"
    using assms by (simp add: is_keyword_record_iff len)
  have nmi: "attribute_name (cards i) = ?nm" using assms(4) by (rule attribute_name_eq)
  have vali: "attribute_value (cards i) = spec_attribute_value (cards i)"
    using assms(4) len [OF assms(1)] by (rule attribute_value_eq)
  have kw_eq: "attribute_name (cards j) = spec_attribute_name (cards j) \<and>
      attribute_value (cards j) = spec_attribute_value (cards j)"
    if "j < numHeaders" "is_keyword_record (cards j)" for j
  proof -
    have "CHR ''='' \<in> set (cards j)" using that len by (simp add: is_keyword_record_iff)
    then show ?thesis using len [OF that(1)] by (simp add: attribute_name_eq attribute_value_eq)
  qed
  have "?P (?rs ! i)" using assms(1) kwi nmi by simp
  then have "find ?P ?rs \<noteq> None"
    using assms(1) by (auto simp: find_None_iff intro!: bexI [where x = "cards i"])
  then obtain r where fr: "find ?P ?rs = Some r" by auto
  then obtain j where j: "j < numHeaders" "?P (cards j)" "r = cards j"
      "\<forall>k<j. \<not> ?P (cards k)"
    by (auto simp: find_Some_iff)
  have ji: "j \<le> i"
  proof (rule ccontr)
    assume "\<not> j \<le> i"
    then have "\<not> ?P (cards i)" using j(4) by simp
    then show False using kwi nmi by simp
  qed
  have first: "\<not> (is_keyword_record (cards k) \<and> spec_attribute_name (cards k) = ?nm)" if "k < j" for k
    using j(4) that kw_eq [of k] j(1) by auto
  have mo: "map_of (attrs ?g) ?nm =
      (case map_of (attrs initial_hdr) ?nm of Some v \<Rightarrow> Some v
       | None \<Rightarrow> Some (spec_attribute_value (cards j)))"
  proof -
    have "attribute_value (cards j) = spec_attribute_value (cards j)"
      using kw_eq [OF j(1)] j(2) by simp
    then have "map_option attribute_value (find ?P ?rs) = Some (spec_attribute_value (cards j))"
      unfolding fr j(3) by simp
    then show ?thesis
      by (simp only: translate_headers_fold map_of_fold_header)
  qed
  have dist: "distinct (map fst (attrs ?g))"
    unfolding translate_headers_fold using initial_distinct by (rule distinct_fold_header)
  have "filter (\<lambda>p. fst p = ?nm) (attrs ?g) =
      [(?nm, case map_of (attrs initial_hdr) ?nm of Some v \<Rightarrow> v
             | None \<Rightarrow> spec_attribute_value (cards j))]"
    using dist by (rule distinct_filter_one) (simp add: mo split: option.splits)
  then have part1: "\<exists>j\<le>i. is_keyword_record (cards j) \<and>
            spec_attribute_name (cards j) = ?nm \<and>
            (\<forall>k<j. \<not> (is_keyword_record (cards k) \<and> spec_attribute_name (cards k) = ?nm)) \<and>
            filter (\<lambda>p. fst p = ?nm) (attrs ?g) =
              [(?nm, case map_of (attrs initial_hdr) ?nm of Some v \<Rightarrow> v
                     | None \<Rightarrow> spec_attribute_value (cards j))]"
    using ji j(2) kw_eq [OF j(1)] first by (intro exI [where x = j]) simp
  have part2: "\<forall>g. attrExists (attrs g) ?nm \<longrightarrow>
              attrs (header_record (cards i) g) = attrs g \<and>
              warnings (header_record (cards i) g) =
                warnings g @ [''Warning: Skipping duplicate attribute '' @ [CHR 0x27] @ ?nm @ [CHR 0x27]]"
    using kwi by (simp add: header_record_keyword nmi)
  have part3: "\<forall>g. \<not> attrExists (attrs g) ?nm \<longrightarrow>
              header_record (cards i) g = g\<lparr>attrs := attrs g @ [(?nm, spec_attribute_value (cards i))]\<rparr>"
    using kwi by (simp add: header_record_keyword nmi vali)
  from part1 part2 part3 show ?thesis by (intro conjI)
qed


lemmas string_defs = spec_attribute_name_def spec_attribute_value_def before_last_def unquote_def
  trim_def ltrim_def rtrim_def isspace_def starts_with_def

text \<open>The record \<^verbatim>\<open>OBJECT  = 'NGC 1068     '\<close> alone.\<close>

lemma header_translation_witness:
  "(0::nat) < 1 \<and>
   \<not> starts_with (''OBJECT  = '' @ [CHR 0x27] @ ''NGC 1068     '' @ [CHR 0x27]) ''COMMENT'' \<and>
   \<not> starts_with (''OBJECT  = '' @ [CHR 0x27] @ ''NGC 1068     '' @ [CHR 0x27]) ''HISTORY'' \<and>
   CHR ''='' \<in> set (''OBJECT  = '' @ [CHR 0x27] @ ''NGC 1068     '' @ [CHR 0x27]) \<and>
   length (''OBJECT  = '' @ [CHR 0x27] @ ''NGC 1068     '' @ [CHR 0x27]) < 255 \<and>
   filter (\<lambda>p. fst p = ''OBJECT'')
     (attrs (translate_headers (\<lambda>i. ''OBJECT  = '' @ [CHR 0x27] @ ''NGC 1068     '' @ [CHR 0x27])
        1 initial_hdr)) = [(''OBJECT'', ''NGC 1068'')]"
proof -
  let ?c = "''OBJECT  = '' @ [CHR 0x27] @ ''NGC 1068     '' @ [CHR 0x27]"
  have n: "spec_attribute_name ?c = ''OBJECT''" by (simp add: string_defs)
  have v: "spec_attribute_value ?c = ''NGC 1068''" by (simp add: string_defs)
  have h: "\<not> starts_with ?c ''COMMENT''" "\<not> starts_with ?c ''HISTORY''" "CHR ''='' \<in> set ?c"
    "length ?c < 255"
    by (simp_all add: starts_with_def)
  have "\<exists>j\<le>0::nat. filter (\<lambda>p. fst p = spec_attribute_name ?c)
                (attrs (translate_headers (\<lambda>i. ?c) 1 initial_hdr)) =
              [(spec_attribute_name ?c,
                case map_of (attrs initial_hdr) (spec_attribute_name ?c) of
                  Some v \<Rightarrow> v
                | None \<Rightarrow> spec_attribute_value ?c)]"
    using header_translation [where cards = "\<lambda>i. ?c" and numHeaders = 1 and i = 0] h
    by simp
  then have "filter (\<lambda>p. fst p = ''OBJECT'') (attrs (translate_headers (\<lambda>i. ?c) 1 initial_hdr)) =
      [(''OBJECT'', ''NGC 1068'')]"
    unfolding n v by (simp add: initial_hdr_def)
  then show ?thesis using h by simp
qed

text \<open>Scenario 5 of the specification, run through the loop.\<close>

lemma header_scenario:
  "translate_headers
     ((!) [''NAXIS   = 3 / number of axes'',
           ''OBJECT  = '' @ [CHR 0x27] @ ''NGC 1068     '' @ [CHR 0x27],
           ''COMMENT hello'',
           ''OBJECT = '' @ [CHR 0x27] @ ''OTHER'' @ [CHR 0x27]]) 4 initial_hdr =
   \<lparr>attrs = [(''SCHEMA_VERSION'', ''0.1''), (''HDF5_CONVERTER'', ''hdf_convert''),
             (''HDF5_CONVERTER_VERSION'', ''0.1.4''), (''NAXIS'', ''3''), (''OBJECT'', ''NGC 1068'')],
    warnings = [''Warning: Skipping duplicate attribute '' @ [CHR 0x27] @ ''OBJECT'' @ [CHR 0x27]]\<rparr>"
  by (simp add: translate_headers_def header_record_def attribute_name_def attribute_value_def
      find_char_def find_last_of_def npos_def size_sub_def substr_def attrExists_def initial_hdr_def
      trim_def ltrim_def rtrim_def isspace_def starts_with_def Let_def upt_rec)

text \<open>
  Which records the loop is handed. Record 0 is the empty string and is skipped, the records
  1 to \<open>numHeaders - 1\<close> of the file follow, and the loop ends before it asks for the last one:
  the attributes are those of the header without its last record.
\<close>

lemma header_record_empty: "header_record [] g = g"
  by (rule header_record_other) (simp add: is_keyword_record_def find_char_def)

lemma map_nth_butlast: "map (\<lambda>i. xs ! i) [0..<length xs - 1] = butlast xs"
  by (rule nth_equalityI) (simp_all add: nth_butlast)

lemma main_headers_butlast:
  "main_headers header = fold header_record (butlast header) initial_hdr"
proof (cases header)
  case Nil
  then show ?thesis
    by (simp add: main_headers_def fits_get_hdrspace_def translate_headers_def)
next
  case (Cons r rs)
  define m where "m = length rs"
  have len: "length header = Suc m" using Cons m_def by simp
  have "map (fits_read_record header) [0..<Suc m] =
        fits_read_record header 0 # map (\<lambda>i. fits_read_record header (Suc i)) [0..<m]"
    by (simp only: upt_conv_Cons [OF zero_less_Suc] list.map map_Suc_upt [symmetric] map_map comp_def)
  also have "fits_read_record header 0 = []" by (simp add: fits_read_record_def)
  also have "map (\<lambda>i. fits_read_record header (Suc i)) [0..<m] = map (\<lambda>i. header ! i) [0..<m]"
    by (rule map_cong) (simp_all add: fits_read_record_def len)
  also have "\<dots> = butlast header" using map_nth_butlast [of header] len by simp
  finally have "map (fits_read_record header) [0..<length header] = [] # butlast header"
    using len by simp
  then show ?thesis
    by (simp add: main_headers_def fits_get_hdrspace_def translate_headers_fold header_record_empty)
qed

lemmas hdr_eval = main_headers_def fits_get_hdrspace_def fits_read_record_def
  translate_headers_def header_record_def attribute_name_def attribute_value_def
  find_char_def find_last_of_def npos_def size_sub_def substr_def attrExists_def initial_hdr_def
  trim_def ltrim_def rtrim_def isspace_def starts_with_def Let_def upt_rec

text \<open>
  Claim C6 at the header of a 2 by 2 image: the five mandatory records and, last before
  \<^verbatim>\<open>END\<close>, \<^verbatim>\<open>OBJECT  = 'NGC 1068'\<close>. \<^verbatim>\<open>numHeaders\<close> is 6, and the loop asks for the records 0
  to 5, which the reader numbers from 1: it is handed the empty string and the five
  mandatory records. The last record starts with neither \<^verbatim>\<open>COMMENT\<close> nor \<^verbatim>\<open>HISTORY\<close> and
  holds an \<^verbatim>\<open>=\<close>, so the specification asks for one attribute \<^verbatim>\<open>OBJECT\<close> with the value
  \<^verbatim>\<open>NGC 1068\<close>; the root group gets no attribute of that name.
\<close>

theorem last_header_record_dropped:
  "fits_get_hdrspace
     [''SIMPLE  =                    T / conforms to FITS standard'',
      ''BITPIX  =                  -32 / array data type'',
      ''NAXIS   =                    2 / number of array dimensions'',
      ''NAXIS1  =                    2'',
      ''NAXIS2  =                    2'',
      ''OBJECT  = '' @ [CHR 0x27] @ ''NGC 1068'' @ [CHR 0x27]] = 6 \<and>
   main_headers
     [''SIMPLE  =                    T / conforms to FITS standard'',
      ''BITPIX  =                  -32 / array data type'',
      ''NAXIS   =                    2 / number of array dimensions'',
      ''NAXIS1  =                    2'',
      ''NAXIS2  =                    2'',
      ''OBJECT  = '' @ [CHR 0x27] @ ''NGC 1068'' @ [CHR 0x27]] =
   \<lparr>attrs = [(''SCHEMA_VERSION'', ''0.1''), (''HDF5_CONVERTER'', ''hdf_convert''),
             (''HDF5_CONVERTER_VERSION'', ''0.1.4''), (''SIMPLE'', ''T''), (''BITPIX'', ''-32''),
             (''NAXIS'', ''2''), (''NAXIS1'', ''2''), (''NAXIS2'', ''2'')],
    warnings = []\<rparr> \<and>
   is_keyword_record (''OBJECT  = '' @ [CHR 0x27] @ ''NGC 1068'' @ [CHR 0x27]) \<and>
   spec_attribute_name (''OBJECT  = '' @ [CHR 0x27] @ ''NGC 1068'' @ [CHR 0x27]) = ''OBJECT'' \<and>
   spec_attribute_value (''OBJECT  = '' @ [CHR 0x27] @ ''NGC 1068'' @ [CHR 0x27]) = ''NGC 1068''"
  by (simp add: hdr_eval is_keyword_record_def string_defs)

subsection \<open>Histograms\<close>


lemma num_bins_2_2: "num_bins 2 2 = 2"
proof -
  have "sqrt (real (2 * 2)) = 2" by simp
  then show ?thesis unfolding num_bins_def by simp
qed

text \<open>
  Claim C4 at a 2 by 2 image with the pixels 1, 2, 3 and \<open>+\<infinity>\<close>. The slice publishes the
  minimum 1 and the maximum \<open>+\<infinity>\<close>, neither a NaN, and its range \<open>+\<infinity>\<close> is not zero, so the pass
  bins the slice. For the infinite pixel \<open>numBins * (val - sliceMin) / range\<close> is
  \<open>\<infinity> / \<infinity>\<close>, a NaN, and its cast to \<^verbatim>\<open>int\<close> is undefined: the bins of the row do not add up to
  the 4 pixels that are not NaN.
\<close>

theorem histogram_infinite_pixel:
  "num_bins 2 2 = 2 \<and>
   minValsXY (slice_pass 2 2 1 0 [Fin 1, Fin 2, Fin 3, PInf] (alloc 2 2 1 1 2)) ! 0 = Fin 1 \<and>
   maxValsXY (slice_pass 2 2 1 0 [Fin 1, Fin 2, Fin 3, PInf] (alloc 2 2 1 1 2)) ! 0 = PInf \<and>
   nanValsXY (slice_pass 2 2 1 0 [Fin 1, Fin 2, Fin 3, PInf] (alloc 2 2 1 1 2)) ! 0 = 0 \<and>
   f64_sub (f2d PInf) (f2d (Fin 1)) = PInf \<and>
   bin_index 2 PInf (f2d (Fin 1)) PInf = Inl UndefinedCast \<and>
   process_stokes 2 2 1 2 0 [Fin 1, Fin 2, Fin 3, PInf] (alloc 2 2 1 1 2) = Inl UndefinedCast"
proof -
  have a: "minValsXY (slice_pass 2 2 1 0 [Fin 1, Fin 2, Fin 3, PInf] (alloc 2 2 1 1 2)) ! 0 = Fin 1"
    by code_simp
  have b: "maxValsXY (slice_pass 2 2 1 0 [Fin 1, Fin 2, Fin 3, PInf] (alloc 2 2 1 1 2)) ! 0 = PInf"
    by code_simp
  have c: "nanValsXY (slice_pass 2 2 1 0 [Fin 1, Fin 2, Fin 3, PInf] (alloc 2 2 1 1 2)) ! 0 = 0"
    by code_simp
  have d: "f64_sub (f2d PInf) (f2d (Fin 1)) = PInf"
    by code_simp
  have e: "bin_index 2 PInf (f2d (Fin 1)) PInf = Inl UndefinedCast"
    by code_simp
  have f: "process_stokes 2 2 1 2 0 [Fin 1, Fin 2, Fin 3, PInf] (alloc 2 2 1 1 2) = Inl UndefinedCast"
    by code_simp
  from num_bins_2_2 a b c d e f show ?thesis by blast
qed

text \<open>
  Claim C10 at a 2 by 2 image with the pixels 1, \<open>-\<infinity>\<close>, 2 and 3. The published minimum \<open>-\<infinity>\<close>
  and maximum 3 are no NaN and the range is \<open>+\<infinity>\<close>. For the finite pixel 1 the quotient is
  \<open>\<infinity> / \<infinity>\<close> again: the cast is undefined and no bin index in \<open>[0, numBins - 1]\<close> comes out.
\<close>

theorem bin_index_infinite_minimum:
  "num_bins 2 2 = 2 \<and>
   minValsXY (slice_pass 2 2 1 0 [Fin 1, NInf, Fin 2, Fin 3] (alloc 2 2 1 1 2)) ! 0 = NInf \<and>
   maxValsXY (slice_pass 2 2 1 0 [Fin 1, NInf, Fin 2, Fin 3] (alloc 2 2 1 1 2)) ! 0 = Fin 3 \<and>
   f64_sub (f2d (Fin 3)) (f2d NInf) = PInf \<and>
   bin_index 2 (Fin 1) (f2d NInf) PInf = Inl UndefinedCast \<and>
   process_stokes 2 2 1 2 0 [Fin 1, NInf, Fin 2, Fin 3] (alloc 2 2 1 1 2) = Inl UndefinedCast"
proof -
  have a: "minValsXY (slice_pass 2 2 1 0 [Fin 1, NInf, Fin 2, Fin 3] (alloc 2 2 1 1 2)) ! 0 = NInf"
    by code_simp
  have b: "maxValsXY (slice_pass 2 2 1 0 [Fin 1, NInf, Fin 2, Fin 3] (alloc 2 2 1 1 2)) ! 0 = Fin 3"
    by code_simp
  have d: "f64_sub (f2d (Fin 3)) (f2d NInf) = PInf"
    by code_simp
  have e: "bin_index 2 (Fin 1) (f2d NInf) PInf = Inl UndefinedCast"
    by code_simp
  have f: "process_stokes 2 2 1 2 0 [Fin 1, NInf, Fin 2, Fin 3] (alloc 2 2 1 1 2) = Inl UndefinedCast"
    by code_simp
  from num_bins_2_2 a b d e f show ?thesis by blast
qed

text \<open>A finite slice, for comparison: scenario 2's first slice.\<close>

lemma finite_slice_histogram:
  "map_sum id histogramsXY (process_stokes 2 2 1 2 0 [Fin 1, Fin 2, Fin 3, Fin 4] (alloc 2 2 1 1 2)) = Inr [2, 2]"
  by code_simp

subsection \<open>Consolidation of the XYZ statistics\<close>


lemma least_or_nan_nan:
  assumes "least_or_nan A m" "isnan m"
  shows "{x \<in> A. \<not> isnan x} = {}"
proof (rule ccontr)
  assume "{x \<in> A. \<not> isnan x} \<noteq> {}"
  then have "is_least {x \<in> A. \<not> isnan x} m" using assms(1) by (simp add: least_or_nan_def)
  then have "\<not> isnan m" by (simp add: is_least_def)
  then show False using assms(2) by simp
qed

lemma greatest_or_nan_nan:
  assumes "greatest_or_nan A m" "isnan m"
  shows "{x \<in> A. \<not> isnan x} = {}"
proof (rule ccontr)
  assume "{x \<in> A. \<not> isnan x} \<noteq> {}"
  then have "is_greatest {x \<in> A. \<not> isnan x} m" using assms(1) by (simp add: greatest_or_nan_def)
  then have "\<not> isnan m" by (simp add: is_greatest_def)
  then show False using assms(2) by simp
qed

lemma fmin_least_or_nan:
  assumes "least_or_nan A m"
  shows "least_or_nan (insert x A) (fmin m x)"
proof (cases "isnan x")
  case True
  then have eq: "{y \<in> insert x A. \<not> isnan y} = {y \<in> A. \<not> isnan y}" by blast
  show ?thesis
  proof (cases "isnan m")
    case mn: True
    then have "fmin m x = x" by (simp add: fmin_def)
    moreover have "{y \<in> A. \<not> isnan y} = {}" using assms mn by (rule least_or_nan_nan)
    ultimately show ?thesis unfolding least_or_nan_def eq using True by simp
  next
    case False
    then have "fmin m x = m" using True by (simp add: fmin_def)
    then show ?thesis using assms unfolding least_or_nan_def eq by simp
  qed
next
  case False
  then have ins: "{y \<in> insert x A. \<not> isnan y} = insert x {y \<in> A. \<not> isnan y}"
    by blast
  show ?thesis
  proof (cases "isnan m")
    case True
    then have "fmin m x = x" by (simp add: fmin_def)
    moreover have E: "{y \<in> A. \<not> isnan y} = {}" using assms True by (rule least_or_nan_nan)
    ultimately show ?thesis
      unfolding least_or_nan_def ins E using False by (simp add: is_least_def fp_le_refl)
  next
    case m: False
    then have ne: "{y \<in> A. \<not> isnan y} \<noteq> {}"
      using assms by (auto simp: least_or_nan_def split: if_splits)
    then have l: "is_least {y \<in> A. \<not> isnan y} m" using assms by (simp add: least_or_nan_def)
    have "fmin m x = std_min m x" using False m by (simp add: fmin_def std_min_def)
    then show ?thesis
      unfolding least_or_nan_def ins using is_least_std_min [OF l False m] by simp
  qed
qed


lemma fmax_greatest_or_nan:
  assumes "greatest_or_nan A m"
  shows "greatest_or_nan (insert x A) (fmax m x)"
proof (cases "isnan x")
  case True
  then have eq: "{y \<in> insert x A. \<not> isnan y} = {y \<in> A. \<not> isnan y}" by blast
  show ?thesis
  proof (cases "isnan m")
    case mn: True
    then have "fmax m x = x" by (simp add: fmax_def)
    moreover have "{y \<in> A. \<not> isnan y} = {}" using assms mn by (rule greatest_or_nan_nan)
    ultimately show ?thesis unfolding greatest_or_nan_def eq using True by simp
  next
    case False
    then have "fmax m x = m" using True by (simp add: fmax_def)
    then show ?thesis using assms unfolding greatest_or_nan_def eq by simp
  qed
next
  case False
  then have ins: "{y \<in> insert x A. \<not> isnan y} = insert x {y \<in> A. \<not> isnan y}"
    by blast
  show ?thesis
  proof (cases "isnan m")
    case True
    then have "fmax m x = x" by (simp add: fmax_def)
    moreover have E: "{y \<in> A. \<not> isnan y} = {}" using assms True by (rule greatest_or_nan_nan)
    ultimately show ?thesis
      unfolding greatest_or_nan_def ins E using False by (simp add: is_greatest_def fp_le_refl)
  next
    case m: False
    then have ne: "{y \<in> A. \<not> isnan y} \<noteq> {}"
      using assms by (auto simp: greatest_or_nan_def split: if_splits)
    then have l: "is_greatest {y \<in> A. \<not> isnan y} m" using assms by (simp add: greatest_or_nan_def)
    have "fmax m x = std_max m x" using False m by (simp add: fmax_def std_max_def)
    then show ?thesis
      unfolding greatest_or_nan_def ins using is_greatest_std_max [OF l False m] by simp
  qed
qed

lemma least_or_nan_single: "least_or_nan {x} x"
proof (cases "isnan x")
  case True
  then have "{y \<in> {x}. \<not> isnan y} = {}" by blast
  then show ?thesis unfolding least_or_nan_def using True by simp
next
  case False
  then have "{y \<in> {x}. \<not> isnan y} = {x}" by blast
  then show ?thesis unfolding least_or_nan_def using False by (simp add: is_least_def fp_le_refl)
qed

lemma greatest_or_nan_single: "greatest_or_nan {x} x"
proof (cases "isnan x")
  case True
  then have "{y \<in> {x}. \<not> isnan y} = {}" by blast
  then show ?thesis unfolding greatest_or_nan_def using True by simp
next
  case False
  then have "{y \<in> {x}. \<not> isnan y} = {x}" by blast
  then show ?thesis unfolding greatest_or_nan_def using False by (simp add: is_greatest_def fp_le_refl)
qed

lemma least_or_nan_mem:
  assumes "least_or_nan A m"
  shows "isnan m \<or> m \<in> A"
proof (cases "{x \<in> A. \<not> isnan x} = {}")
  case True
  then show ?thesis using assms by (simp add: least_or_nan_def)
next
  case False
  then have "is_least {x \<in> A. \<not> isnan x} m" using assms by (simp add: least_or_nan_def)
  then show ?thesis by (simp add: is_least_def)
qed

lemma greatest_or_nan_mem:
  assumes "greatest_or_nan A m"
  shows "isnan m \<or> m \<in> A"
proof (cases "{x \<in> A. \<not> isnan x} = {}")
  case True
  then show ?thesis using assms by (simp add: greatest_or_nan_def)
next
  case False
  then have "is_greatest {x \<in> A. \<not> isnan x} m" using assms by (simp add: greatest_or_nan_def)
  then show ?thesis by (simp add: is_greatest_def)
qed


lemma xyz_step_fields:
  "xyzMin (xyz_step width height depth s st i x) =
     (if \<not> isnan (meanValsXY st ! (s * depth + i))
      then fmin (xyzMin x) (minValsXY st ! (s * depth + i)) else xyzMin x)"
  "xyzMax (xyz_step width height depth s st i x) =
     (if \<not> isnan (meanValsXY st ! (s * depth + i))
      then fmax (xyzMax x) (maxValsXY st ! (s * depth + i)) else xyzMax x)"
  "xyzNanCount (xyz_step width height depth s st i x) =
     xyzNanCount x + nanValsXY st ! (s * depth + i)"
  by (simp_all add: xyz_step_def Let_def f2d_def)

lemma xyz_slices_Suc:
  "insert 0 {z. z < Suc n \<and> \<not> isnan (meanValsXY st ! (s * depth + z))} =
     (if \<not> isnan (meanValsXY st ! (s * depth + n))
      then insert n (insert 0 {z. z < n \<and> \<not> isnan (meanValsXY st ! (s * depth + z))})
      else insert 0 {z. z < n \<and> \<not> isnan (meanValsXY st ! (s * depth + z))})"
  by (auto simp: less_Suc_eq)

lemma xyz_loop_min:
  "least_or_nan ((\<lambda>z. minValsXY st ! (s * depth + z)) `
       insert 0 {z. z < n \<and> \<not> isnan (meanValsXY st ! (s * depth + z))})
     (xyzMin (fold (xyz_step width height depth s st) [0..<n]
        \<lparr>xyzSum = Fin 0, xyzNanCount = 0, xyzMin = f2d (minValsXY st ! (s * depth)),
         xyzMax = f2d (maxValsXY st ! (s * depth))\<rparr>))"
proof (induction n)
  case 0
  then show ?case using least_or_nan_single [of "minValsXY st ! (s * depth)"] by (simp add: f2d_def)
next
  case (Suc n)
  show ?case
  proof (cases "isnan (meanValsXY st ! (s * depth + n))")
    case True
    then show ?thesis
      using Suc unfolding xyz_slices_Suc by (simp add: xyz_step_fields)
  next
    case False
    then show ?thesis
      using fmin_least_or_nan [OF Suc, of "minValsXY st ! (s * depth + n)"]
      unfolding xyz_slices_Suc by (simp add: xyz_step_fields)
  qed
qed

lemma xyz_loop_max:
  "greatest_or_nan ((\<lambda>z. maxValsXY st ! (s * depth + z)) `
       insert 0 {z. z < n \<and> \<not> isnan (meanValsXY st ! (s * depth + z))})
     (xyzMax (fold (xyz_step width height depth s st) [0..<n]
        \<lparr>xyzSum = Fin 0, xyzNanCount = 0, xyzMin = f2d (minValsXY st ! (s * depth)),
         xyzMax = f2d (maxValsXY st ! (s * depth))\<rparr>))"
proof (induction n)
  case 0
  then show ?case using greatest_or_nan_single [of "maxValsXY st ! (s * depth)"] by (simp add: f2d_def)
next
  case (Suc n)
  show ?case
  proof (cases "isnan (meanValsXY st ! (s * depth + n))")
    case True
    then show ?thesis
      using Suc unfolding xyz_slices_Suc by (simp add: xyz_step_fields)
  next
    case False
    then show ?thesis
      using fmax_greatest_or_nan [OF Suc, of "maxValsXY st ! (s * depth + n)"]
      unfolding xyz_slices_Suc by (simp add: xyz_step_fields)
  qed
qed

lemma xyz_loop_nan:
  "xyzNanCount (fold (xyz_step width height depth s st) [0..<n] x) =
     xyzNanCount x + (\<Sum>z<n. nanValsXY st ! (s * depth + z))"
  by (induction n) (simp_all add: xyz_step_fields)

lemma xyz_slices_alt:
  assumes "0 < depth"
  shows "xyz_slices depth s st = insert 0 {z. z < depth \<and> \<not> isnan (meanValsXY st ! (s * depth + z))}"
  using assms by (auto simp: xyz_slices_def)

lemma d2f_least_or_nan:
  assumes "least_or_nan A m" "\<forall>x\<in>A. is_f32 x"
  shows "least_or_nan A (d2f m)"
proof -
  have "isnan m \<or> m \<in> A" using assms(1) by (rule least_or_nan_mem)
  then have "d2f m = m" using assms(2) by (auto simp: isnan_def is_f32_def)
  then show ?thesis using assms(1) by simp
qed

lemma d2f_greatest_or_nan:
  assumes "greatest_or_nan A m" "\<forall>x\<in>A. is_f32 x"
  shows "greatest_or_nan A (d2f m)"
proof -
  have "isnan m \<or> m \<in> A" using assms(1) by (rule greatest_or_nan_mem)
  then have "d2f m = m" using assms(2) by (auto simp: isnan_def is_f32_def)
  then show ?thesis using assms(1) by simp
qed

lemma consolidate_arrays:
  "minValsXYZ (consolidate width height depth s st) =
     (minValsXYZ st)[s := d2f (xyzMin (xyz_loop width height depth s st))]"
  "maxValsXYZ (consolidate width height depth s st) =
     (maxValsXYZ st)[s := d2f (xyzMax (xyz_loop width height depth s st))]"
  "nanValsXYZ (consolidate width height depth s st) =
     (nanValsXYZ st)[s := xyzNanCount (xyz_loop width height depth s st)]"
  by (simp_all add: consolidate_def publish_xyz_def Let_def)

lemma slice_iter_frame:
  "histogramsXY (slice_iter width height depth s cube i st) = histogramsXY st"
  "minValsZ (slice_iter width height depth s cube i st) = minValsZ st"
  "maxValsZ (slice_iter width height depth s cube i st) = maxValsZ st"
  "meanValsZ (slice_iter width height depth s cube i st) = meanValsZ st"
  "nanValsZ (slice_iter width height depth s cube i st) = nanValsZ st"
  "minValsXYZ (slice_iter width height depth s cube i st) = minValsXYZ st"
  "maxValsXYZ (slice_iter width height depth s cube i st) = maxValsXYZ st"
  "meanValsXYZ (slice_iter width height depth s cube i st) = meanValsXYZ st"
  "nanValsXYZ (slice_iter width height depth s cube i st) = nanValsXYZ st"
  "partialHistogramsXYZ (slice_iter width height depth s cube i st) = partialHistogramsXYZ st"
  "histogramsXYZ (slice_iter width height depth s cube i st) = histogramsXYZ st"
  by (simp_all add: slice_iter_def publish_xy_def Let_def)

lemma fold_id: "(\<And>x s. sel (f x s) = sel s) \<Longrightarrow> sel (fold f xs s) = sel s"
  by (induction xs arbitrary: s) simp_all

lemma slice_pass_frame:
  "histogramsXY (slice_pass width height depth s cube st) = histogramsXY st"
  "minValsZ (slice_pass width height depth s cube st) = minValsZ st"
  "maxValsZ (slice_pass width height depth s cube st) = maxValsZ st"
  "meanValsZ (slice_pass width height depth s cube st) = meanValsZ st"
  "nanValsZ (slice_pass width height depth s cube st) = nanValsZ st"
  "minValsXYZ (slice_pass width height depth s cube st) = minValsXYZ st"
  "maxValsXYZ (slice_pass width height depth s cube st) = maxValsXYZ st"
  "meanValsXYZ (slice_pass width height depth s cube st) = meanValsXYZ st"
  "nanValsXYZ (slice_pass width height depth s cube st) = nanValsXYZ st"
  "partialHistogramsXYZ (slice_pass width height depth s cube st) = partialHistogramsXYZ st"
  "histogramsXYZ (slice_pass width height depth s cube st) = histogramsXYZ st"
  unfolding slice_pass_def by (intro fold_id slice_iter_frame)+

lemma length_rot_write [simp]: "length (rot_write width height depth cube p rot) = length rot"
  by (simp add: rot_write_def)

lemma length_fold_rot_write [simp]:
  "length (fold (rot_write width height depth cube) ps rot) = length rot"
  by (induction ps arbitrary: rot) simp_all

lemma allocated_slice_pass:
  assumes "allocated width height depth stokes numBins st"
  shows "allocated width height depth stokes numBins (slice_pass width height depth s cube st)"
proof (cases "1 < depth")
  case True
  then show ?thesis
    using assms
    by (simp add: allocated_def slice_pass_frame slice_pass_arrays rotatedCube_slice_pass)
next
  case False
  then show ?thesis
    using assms by (simp add: allocated_def slice_pass_frame slice_pass_arrays)
qed

lemma is_f32_FLT_MAX: "is_f32 FLT_MAX" "is_f32 (fp_neg FLT_MAX)" "is_f32 NaN"
  by code_simp+

lemma set_slice_vals: "set (slice_vals width height cube z) \<subseteq> set cube"
  unfolding slice_vals_def by (meson set_take_subset set_drop_subset subset_trans)

lemma slice_pass_is_f32:
  assumes "allocated width height depth stokes numBins st" "s < stokes" "z < depth"
    "length cube = depth * height * width" "\<forall>x\<in>set cube. is_f32 x"
  shows "is_f32 (minValsXY (slice_pass width height depth s cube st) ! (s * depth + z))"
    "is_f32 (maxValsXY (slice_pass width height depth s cube st) ! (s * depth + z))"
proof -
  let ?nn = "filter (\<lambda>v. \<not> isnan v) (slice_vals width height cube z)"
  have sub: "set ?nn \<subseteq> set cube" using set_slice_vals [of width height cube z] by auto
  have "is_least (insert FLT_MAX (set ?nn)) (foldl std_min FLT_MAX ?nn)"
    using foldl_std_min [of FLT_MAX ?nn] by (simp add: FLT_MAX_def isnan_def)
  then have "foldl std_min FLT_MAX ?nn \<in> insert FLT_MAX (set ?nn)" by (simp add: is_least_def)
  then have mn: "is_f32 (foldl std_min FLT_MAX ?nn)"
    using sub assms(5) is_f32_FLT_MAX(1) by auto
  have "is_greatest (insert (fp_neg FLT_MAX) (set ?nn)) (foldl std_max (fp_neg FLT_MAX) ?nn)"
    using foldl_std_max [of "fp_neg FLT_MAX" ?nn] by (simp add: FLT_MAX_def isnan_def)
  then have "foldl std_max (fp_neg FLT_MAX) ?nn \<in> insert (fp_neg FLT_MAX) (set ?nn)"
    by (simp add: is_greatest_def)
  then have mx: "is_f32 (foldl std_max (fp_neg FLT_MAX) ?nn)"
    using sub assms(5) is_f32_FLT_MAX(2) by auto
  show "is_f32 (minValsXY (slice_pass width height depth s cube st) ! (s * depth + z))"
    unfolding slice_pass_xy [OF assms(1-4)] pub_min_def slice_acc_fields
    using mn is_f32_FLT_MAX(3) by simp
  show "is_f32 (maxValsXY (slice_pass width height depth s cube st) ! (s * depth + z))"
    unfolding slice_pass_xy [OF assms(1-4)] pub_max_def slice_acc_fields
    using mx is_f32_FLT_MAX(3) by simp
qed

lemma xyz_consolidation_arrays:
  assumes "1 < depth" "allocated width height depth stokes numBins st" "s < stokes"
    and "\<forall>z<depth. is_f32 (minValsXY st ! (s * depth + z)) \<and> is_f32 (maxValsXY st ! (s * depth + z))"
  shows "nanValsXYZ (consolidate width height depth s st) ! s =
           (\<Sum>z<depth. nanValsXY st ! (s * depth + z)) \<and>
         least_or_nan ((\<lambda>z. minValsXY st ! (s * depth + z)) ` xyz_slices depth s st)
           (minValsXYZ (consolidate width height depth s st) ! s) \<and>
         greatest_or_nan ((\<lambda>z. maxValsXY st ! (s * depth + z)) ` xyz_slices depth s st)
           (maxValsXYZ (consolidate width height depth s st) ! s)"
proof -
  have len: "s < length (minValsXYZ st)" "s < length (maxValsXYZ st)" "s < length (nanValsXYZ st)"
    using assms(1,2,3) by (simp_all add: allocated_def)
  have d: "0 < depth" using assms(1) by simp
  have f32: "\<forall>x\<in>(\<lambda>z. minValsXY st ! (s * depth + z)) ` xyz_slices depth s st. is_f32 x"
    "\<forall>x\<in>(\<lambda>z. maxValsXY st ! (s * depth + z)) ` xyz_slices depth s st. is_f32 x"
    using assms(4) by (auto simp: xyz_slices_def)
  have mn: "least_or_nan ((\<lambda>z. minValsXY st ! (s * depth + z)) ` xyz_slices depth s st)
      (xyzMin (xyz_loop width height depth s st))"
    unfolding xyz_slices_alt [OF d] xyz_loop_def by (rule xyz_loop_min)
  have mx: "greatest_or_nan ((\<lambda>z. maxValsXY st ! (s * depth + z)) ` xyz_slices depth s st)
      (xyzMax (xyz_loop width height depth s st))"
    unfolding xyz_slices_alt [OF d] xyz_loop_def by (rule xyz_loop_max)
  have nn: "xyzNanCount (xyz_loop width height depth s st) =
      (\<Sum>z<depth. nanValsXY st ! (s * depth + z))"
    by (simp add: xyz_loop_def xyz_loop_nan)
  show ?thesis
    using d2f_least_or_nan [OF mn f32(1)] d2f_greatest_or_nan [OF mx f32(2)] nn len
    by (simp add: consolidate_arrays)
qed

text \<open>
  Claim C5, as amended. When \<open>depth > 1\<close> and the cube holds binary32 values, after the slice
  pass and the consolidation of polarization \<open>s\<close>: \<open>nanXYZ[s]\<close> is the sum over all slices of
  \<open>nanXY[s,z]\<close>. \<open>minXYZ[s]\<close> is the least non-NaN \<open>minXY[s,z]\<close> over slice 0 and the slices whose
  \<open>meanXY[s,z]\<close> is no NaN, and a NaN when there is none; \<open>maxXYZ[s]\<close> is the greatest non-NaN
  \<open>maxXY[s,z]\<close> over the same slices. A slice 0 that is all NaN has a NaN minimum and maximum,
  which \<^verbatim>\<open>fmin\<close> and \<^verbatim>\<open>fmax\<close> drop, so the initialisation does not corrupt the result.
\<close>

theorem xyz_consolidation:
  assumes "1 < depth" "allocated width height depth stokes numBins st" "s < stokes"
    and "length standardCube = depth * height * width" "\<forall>x\<in>set standardCube. is_f32 x"
  shows "nanValsXYZ (consolidate width height depth s
                       (slice_pass width height depth s standardCube st)) ! s =
           (\<Sum>z<depth. nanValsXY (slice_pass width height depth s standardCube st) ! (s * depth + z)) \<and>
         least_or_nan
           ((\<lambda>z. minValsXY (slice_pass width height depth s standardCube st) ! (s * depth + z)) `
              xyz_slices depth s (slice_pass width height depth s standardCube st))
           (minValsXYZ (consolidate width height depth s
                          (slice_pass width height depth s standardCube st)) ! s) \<and>
         greatest_or_nan
           ((\<lambda>z. maxValsXY (slice_pass width height depth s standardCube st) ! (s * depth + z)) `
              xyz_slices depth s (slice_pass width height depth s standardCube st))
           (maxValsXYZ (consolidate width height depth s
                          (slice_pass width height depth s standardCube st)) ! s)"
proof -
  have a: "allocated width height depth stokes numBins (slice_pass width height depth s standardCube st)"
    using assms(2) by (rule allocated_slice_pass)
  have f: "\<forall>z<depth.
      is_f32 (minValsXY (slice_pass width height depth s standardCube st) ! (s * depth + z)) \<and>
      is_f32 (maxValsXY (slice_pass width height depth s standardCube st) ! (s * depth + z))"
    using slice_pass_is_f32 [OF assms(2,3) _ assms(4,5)] by simp
  show ?thesis using assms(1) a assms(3) f by (rule xyz_consolidation_arrays)
qed


text \<open>
  The claim as stated fails on a 2 by 1 by 2 cube whose second slice holds \<open>-\<infinity>\<close> and \<open>+\<infinity>\<close>:
  the slice has no NaN pixel, so \<open>nanXY < height * width\<close>, and its minimum \<open>-\<infinity>\<close> is the least
  of the two slice minima. But its sum, hence its mean, is a NaN, the guard on the mean
  skips the slice, and \<open>minXYZ\<close> is the 5 of slice 0.
\<close>

theorem xyz_min_counterexample:
  "nanValsXY (slice_pass 2 1 2 0 [Fin 5, Fin 6, NInf, PInf] (alloc 2 1 2 1 1)) ! 0 = 0 \<and>
   nanValsXY (slice_pass 2 1 2 0 [Fin 5, Fin 6, NInf, PInf] (alloc 2 1 2 1 1)) ! 1 = 0 \<and>
   minValsXY (slice_pass 2 1 2 0 [Fin 5, Fin 6, NInf, PInf] (alloc 2 1 2 1 1)) ! 0 = Fin 5 \<and>
   minValsXY (slice_pass 2 1 2 0 [Fin 5, Fin 6, NInf, PInf] (alloc 2 1 2 1 1)) ! 1 = NInf \<and>
   is_least {Fin 5, NInf} NInf \<and>
   minValsXYZ (consolidate 2 1 2 0
      (slice_pass 2 1 2 0 [Fin 5, Fin 6, NInf, PInf] (alloc 2 1 2 1 1))) ! 0 = Fin 5"
proof -
  have a: "nanValsXY (slice_pass 2 1 2 0 [Fin 5, Fin 6, NInf, PInf] (alloc 2 1 2 1 1)) ! 0 = 0"
    by code_simp
  have b: "nanValsXY (slice_pass 2 1 2 0 [Fin 5, Fin 6, NInf, PInf] (alloc 2 1 2 1 1)) ! 1 = 0"
    by code_simp
  have c: "minValsXY (slice_pass 2 1 2 0 [Fin 5, Fin 6, NInf, PInf] (alloc 2 1 2 1 1)) ! 0 = Fin 5"
    by code_simp
  have d: "minValsXY (slice_pass 2 1 2 0 [Fin 5, Fin 6, NInf, PInf] (alloc 2 1 2 1 1)) ! 1 = NInf"
    by code_simp
  have e: "is_least {Fin 5, NInf} NInf"
    by (simp add: is_least_def fp_le_def isnan_def)
  have f: "minValsXYZ (consolidate 2 1 2 0
      (slice_pass 2 1 2 0 [Fin 5, Fin 6, NInf, PInf] (alloc 2 1 2 1 1))) ! 0 = Fin 5"
    by code_simp
  from a b c d e f show ?thesis by blast
qed

text \<open>Scenario 2 of the specification: the cube \<open>1, 2, 3, 4, 5, 6, 7, NaN\<close>.\<close>

lemma is_f32_small:
  "is_f32 (Fin 1)" "is_f32 (Fin 2)" "is_f32 (Fin 3)" "is_f32 (Fin 4)" "is_f32 (Fin 5)"
  "is_f32 (Fin 6)" "is_f32 (Fin 7)"
  by code_simp+

theorem xyz_consolidation_witness:
  "(1::nat) < 2 \<and> allocated 2 2 2 1 1 (alloc 2 2 2 1 1) \<and> (0::nat) < 1 \<and>
   length [Fin 1, Fin 2, Fin 3, Fin 4, Fin 5, Fin 6, Fin 7, NaN] = 2 * 2 * 2 \<and>
   list_all is_f32 [Fin 1, Fin 2, Fin 3, Fin 4, Fin 5, Fin 6, Fin 7, NaN] \<and>
   nanValsXYZ (consolidate 2 2 2 0
       (slice_pass 2 2 2 0 [Fin 1, Fin 2, Fin 3, Fin 4, Fin 5, Fin 6, Fin 7, NaN] (alloc 2 2 2 1 1))) ! 0 =
     (\<Sum>z<2. nanValsXY
       (slice_pass 2 2 2 0 [Fin 1, Fin 2, Fin 3, Fin 4, Fin 5, Fin 6, Fin 7, NaN] (alloc 2 2 2 1 1))
         ! (0 * 2 + z)) \<and>
   least_or_nan
     ((\<lambda>z. minValsXY
         (slice_pass 2 2 2 0 [Fin 1, Fin 2, Fin 3, Fin 4, Fin 5, Fin 6, Fin 7, NaN] (alloc 2 2 2 1 1))
           ! (0 * 2 + z)) `
       xyz_slices 2 0
         (slice_pass 2 2 2 0 [Fin 1, Fin 2, Fin 3, Fin 4, Fin 5, Fin 6, Fin 7, NaN] (alloc 2 2 2 1 1)))
     (minValsXYZ (consolidate 2 2 2 0
        (slice_pass 2 2 2 0 [Fin 1, Fin 2, Fin 3, Fin 4, Fin 5, Fin 6, Fin 7, NaN] (alloc 2 2 2 1 1))) ! 0) \<and>
   minValsXYZ (consolidate 2 2 2 0
       (slice_pass 2 2 2 0 [Fin 1, Fin 2, Fin 3, Fin 4, Fin 5, Fin 6, Fin 7, NaN] (alloc 2 2 2 1 1))) ! 0
     = Fin 1 \<and>
   maxValsXYZ (consolidate 2 2 2 0
       (slice_pass 2 2 2 0 [Fin 1, Fin 2, Fin 3, Fin 4, Fin 5, Fin 6, Fin 7, NaN] (alloc 2 2 2 1 1))) ! 0
     = Fin 7 \<and>
   nanValsXYZ (consolidate 2 2 2 0
       (slice_pass 2 2 2 0 [Fin 1, Fin 2, Fin 3, Fin 4, Fin 5, Fin 6, Fin 7, NaN] (alloc 2 2 2 1 1))) ! 0
     = 1"
proof -
  let ?cube = "[Fin 1, Fin 2, Fin 3, Fin 4, Fin 5, Fin 6, Fin 7, NaN]"
  have a: "allocated 2 2 2 1 1 (alloc 2 2 2 1 1)" by (rule allocated_alloc)
  have f: "\<forall>x\<in>set ?cube. is_f32 x" using is_f32_small is_f32_FLT_MAX(3) by simp
  have l: "length ?cube = 2 * 2 * 2" by simp
  note T = xyz_consolidation [OF _ a _ l f, of 0]
  have v1: "minValsXYZ (consolidate 2 2 2 0 (slice_pass 2 2 2 0 ?cube (alloc 2 2 2 1 1))) ! 0 = Fin 1"
    by code_simp
  have v2: "maxValsXYZ (consolidate 2 2 2 0 (slice_pass 2 2 2 0 ?cube (alloc 2 2 2 1 1))) ! 0 = Fin 7"
    by code_simp
  have v3: "nanValsXYZ (consolidate 2 2 2 0 (slice_pass 2 2 2 0 ?cube (alloc 2 2 2 1 1))) ! 0 = 1"
    by code_simp
  have h: "(1::nat) < 2" "(0::nat) < 1" by simp_all
  have la: "list_all is_f32 ?cube" using f by (simp only: list_all_iff)
  from T [OF h] a l la v1 v2 v3 h show ?thesis by blast
qed

subsection \<open>NaN counts at their upper bound\<close>



lemma sum_at_bound:
  fixes a :: "nat \<Rightarrow> int"
  assumes "\<forall>z<n. a z \<le> M" "(\<Sum>z<n. a z) = int n * M"
  shows "\<forall>z<n. a z = M"
  using assms
proof (induction n)
  case 0
  then show ?case by simp
next
  case (Suc n)
  define S where "S = (\<Sum>z<n. a z)"
  define K where "K = int n * M"
  have "\<And>i. i \<in> {..<n} \<Longrightarrow> a i \<le> M" using Suc.prems(1) by simp
  then have "(\<Sum>z<n. a z) \<le> of_nat (card {..<n}) * M" by (rule sum_bounded_above)
  then have le: "S \<le> K" by (simp add: S_def K_def)
  have an: "a n \<le> M" using Suc.prems(1) by simp
  have "int (Suc n) * M = K + M" by (simp add: K_def distrib_right)
  moreover have "(\<Sum>z<Suc n. a z) = S + a n" by (simp add: S_def)
  ultimately have tot: "S + a n = K + M" using Suc.prems(2) by (simp only:)
  have eq: "S = K" "a n = M" using le an tot by linarith+
  have "\<forall>z<n. a z \<le> M" using Suc.prems(1) by simp
  then have "\<forall>z<n. a z = M" using eq(1) unfolding S_def K_def by (rule Suc.IH)
  then show ?case using eq(2) by (simp add: less_Suc_eq)
qed



lemma slice_nan_bound:
  assumes "z < depth" "length cube = depth * height * width"
  shows "nanCount (slice_acc width height cube z) \<le> int (height * width)"
proof -
  have "length (slice_vals width height cube z) = height * width"
    using slice_in_cube [OF assms] by (simp add: slice_vals_def)
  then have "length (filter isnan (slice_vals width height cube z)) \<le> height * width"
    using length_filter_le [of isnan "slice_vals width height cube z"] by simp
  then show ?thesis by (simp only: slice_acc_fields of_nat_le_iff)
qed

lemma consolidate_mean:
  "meanValsXYZ (consolidate width height depth s st) =
     (if xyzNanCount (xyz_loop width height depth s st) \<noteq> int (depth * height * width)
      then (meanValsXYZ st)[s := d2f (f64_div (xyzSum (xyz_loop width height depth s st))
              (f64_of_int (int (depth * height * width)
                 - xyzNanCount (xyz_loop width height depth s st))))]
      else meanValsXYZ st)"
  by (simp add: consolidate_def publish_xyz_def Let_def)

lemma least_or_nan_all_nan:
  assumes "least_or_nan A m" "\<forall>x\<in>A. isnan x"
  shows "isnan m"
proof -
  have "{x \<in> A. \<not> isnan x} = {}" using assms(2) by blast
  then show ?thesis using assms(1) by (simp add: least_or_nan_def)
qed


lemma greatest_or_nan_all_nan:
  assumes "greatest_or_nan A m" "\<forall>x\<in>A. isnan x"
  shows "isnan m"
proof -
  have "{x \<in> A. \<not> isnan x} = {}" using assms(2) by blast
  then show ?thesis using assms(1) by (simp add: greatest_or_nan_def)
qed

text \<open>
  Claim C2, as amended. For the XY family: a slice whose NaN count reaches \<open>height * width\<close>
  has NaN entries for its minimum, maximum and mean. For the XYZ family, when \<open>depth > 1\<close>:
  a polarization whose NaN count reaches \<open>depth * height * width\<close> has NaN entries for its
  minimum and maximum, and its mean entry is not written: it keeps the value it had,
  the zero of the allocation. (The Z family is left out.)
\<close>

theorem nan_count_upper_bound:
  assumes "allocated width height depth stokes numBins st" "s < stokes"
    and "length standardCube = depth * height * width"
  shows "(\<forall>z<depth.
            nanValsXY (slice_pass width height depth s standardCube st) ! (s * depth + z)
              = int (height * width) \<longrightarrow>
            isnan (minValsXY (slice_pass width height depth s standardCube st) ! (s * depth + z)) \<and>
            isnan (maxValsXY (slice_pass width height depth s standardCube st) ! (s * depth + z)) \<and>
            isnan (meanValsXY (slice_pass width height depth s standardCube st) ! (s * depth + z))) \<and>
         (1 < depth \<and>
          nanValsXYZ (consolidate width height depth s
                        (slice_pass width height depth s standardCube st)) ! s
            = int (depth * height * width) \<longrightarrow>
          isnan (minValsXYZ (consolidate width height depth s
                               (slice_pass width height depth s standardCube st)) ! s) \<and>
          isnan (maxValsXYZ (consolidate width height depth s
                               (slice_pass width height depth s standardCube st)) ! s) \<and>
          meanValsXYZ (consolidate width height depth s
                         (slice_pass width height depth s standardCube st)) ! s
            = meanValsXYZ st ! s)"
proof -
  let ?st1 = "slice_pass width height depth s standardCube st"
  let ?st2 = "consolidate width height depth s ?st1"
  note P = slice_pass_xy [OF assms(1,2) _ assms(3)]
  have xy: "isnan (minValsXY ?st1 ! (s * depth + z)) \<and> isnan (maxValsXY ?st1 ! (s * depth + z)) \<and>
      isnan (meanValsXY ?st1 ! (s * depth + z))"
    if "z < depth" "nanValsXY ?st1 ! (s * depth + z) = int (height * width)" for z
    using that by (simp add: P pub_min_def pub_max_def pub_mean_def isnan_def)
  have xyz: "isnan (minValsXYZ ?st2 ! s) \<and> isnan (maxValsXYZ ?st2 ! s) \<and>
      meanValsXYZ ?st2 ! s = meanValsXYZ st ! s"
    if d: "1 < depth" and full: "nanValsXYZ ?st2 ! s = int (depth * height * width)"
  proof -
    have a1: "allocated width height depth stokes numBins ?st1"
      using assms(1) by (rule allocated_slice_pass)
    have len: "s < length (nanValsXYZ ?st1)" using a1 d assms(2) by (simp add: allocated_def)
    have cnt: "xyzNanCount (xyz_loop width height depth s ?st1) =
        (\<Sum>z<depth. nanValsXY ?st1 ! (s * depth + z))"
      by (simp add: xyz_loop_def xyz_loop_nan)
    have "nanValsXYZ ?st2 ! s = xyzNanCount (xyz_loop width height depth s ?st1)"
      using len by (simp add: consolidate_arrays)
    then have total: "(\<Sum>z<depth. nanValsXY ?st1 ! (s * depth + z)) = int depth * int (height * width)"
      using full cnt by (simp add: mult.assoc)
    have "\<forall>z<depth. nanValsXY ?st1 ! (s * depth + z) \<le> int (height * width)"
      using slice_nan_bound [OF _ assms(3)] by (simp add: P)
    then have all: "\<forall>z<depth. nanValsXY ?st1 ! (s * depth + z) = int (height * width)"
      using total by (rule sum_at_bound)
    then have nan: "\<forall>z<depth. isnan (minValsXY ?st1 ! (s * depth + z)) \<and>
        isnan (maxValsXY ?st1 ! (s * depth + z))"
      using xy by blast
    then have f32: "\<forall>z<depth. is_f32 (minValsXY ?st1 ! (s * depth + z)) \<and>
        is_f32 (maxValsXY ?st1 ! (s * depth + z))"
      by (simp add: isnan_def is_f32_def)
    note C = xyz_consolidation_arrays [OF d a1 assms(2) f32]
    have mn: "isnan (minValsXYZ ?st2 ! s)"
      using C nan by (intro least_or_nan_all_nan [where A = "(\<lambda>z. minValsXY ?st1 ! (s * depth + z)) `
          xyz_slices depth s ?st1"]) (auto simp: xyz_slices_def)
    have mx: "isnan (maxValsXYZ ?st2 ! s)"
      using C nan by (intro greatest_or_nan_all_nan [where A = "(\<lambda>z. maxValsXY ?st1 ! (s * depth + z)) `
          xyz_slices depth s ?st1"]) (auto simp: xyz_slices_def)
    have "xyzNanCount (xyz_loop width height depth s ?st1) = int (depth * height * width)"
      using cnt total by (simp add: mult.assoc)
    then have "meanValsXYZ ?st2 = meanValsXYZ st"
      by (simp add: consolidate_mean slice_pass_frame)
    then show ?thesis using mn mx by simp
  qed
  show ?thesis using xy xyz by blast
qed


text \<open>
  The claim as stated fails on the 1 by 1 by 2 cube of two NaN pixels. The NaN count of the
  cube is 2, its upper bound, and the XYZ mean is the 0 of the allocation, no NaN: line 312
  writes the mean only when the count is below the bound. In the Z family the profile of
  the one spatial pixel is all NaN and its count is 2, the depth, but line 341 compares the
  count with \<open>height * width = 1\<close>: the published minimum and maximum are the sentinels
  \<open>FLT_MAX\<close> and \<open>- FLT_MAX\<close>.
\<close>

theorem nan_mean_counterexample:
  "nanValsXYZ (consolidate 1 1 2 0 (slice_pass 1 1 2 0 [NaN, NaN] (alloc 1 1 2 1 1))) ! 0 = 2 \<and>
   meanValsXYZ (consolidate 1 1 2 0 (slice_pass 1 1 2 0 [NaN, NaN] (alloc 1 1 2 1 1))) ! 0 = Fin 0 \<and>
   \<not> isnan (Fin 0) \<and>
   nanValsZ (profile_pass 1 1 2 0 [NaN, NaN]
      (consolidate 1 1 2 0 (slice_pass 1 1 2 0 [NaN, NaN] (alloc 1 1 2 1 1)))) ! 0 = 2 \<and>
   minValsZ (profile_pass 1 1 2 0 [NaN, NaN]
      (consolidate 1 1 2 0 (slice_pass 1 1 2 0 [NaN, NaN] (alloc 1 1 2 1 1)))) ! 0 = FLT_MAX \<and>
   maxValsZ (profile_pass 1 1 2 0 [NaN, NaN]
      (consolidate 1 1 2 0 (slice_pass 1 1 2 0 [NaN, NaN] (alloc 1 1 2 1 1)))) ! 0 = fp_neg FLT_MAX \<and>
   \<not> isnan FLT_MAX \<and> \<not> isnan (fp_neg FLT_MAX)"
proof -
  have a: "nanValsXYZ (consolidate 1 1 2 0 (slice_pass 1 1 2 0 [NaN, NaN] (alloc 1 1 2 1 1))) ! 0 = 2"
    by code_simp
  have b: "meanValsXYZ (consolidate 1 1 2 0 (slice_pass 1 1 2 0 [NaN, NaN] (alloc 1 1 2 1 1))) ! 0 = Fin 0"
    by code_simp
  have c: "nanValsZ (profile_pass 1 1 2 0 [NaN, NaN]
      (consolidate 1 1 2 0 (slice_pass 1 1 2 0 [NaN, NaN] (alloc 1 1 2 1 1)))) ! 0 = 2"
    by code_simp
  have d: "minValsZ (profile_pass 1 1 2 0 [NaN, NaN]
      (consolidate 1 1 2 0 (slice_pass 1 1 2 0 [NaN, NaN] (alloc 1 1 2 1 1)))) ! 0 = FLT_MAX"
    by code_simp
  have e: "maxValsZ (profile_pass 1 1 2 0 [NaN, NaN]
      (consolidate 1 1 2 0 (slice_pass 1 1 2 0 [NaN, NaN] (alloc 1 1 2 1 1)))) ! 0 = fp_neg FLT_MAX"
    by code_simp
  have f: "\<not> isnan (Fin 0)" "\<not> isnan FLT_MAX" "\<not> isnan (fp_neg FLT_MAX)"
    by (simp_all add: isnan_def FLT_MAX_def)
  from a b c d e f show ?thesis by blast
qed

theorem nan_count_upper_bound_witness:
  "allocated 1 1 2 1 1 (alloc 1 1 2 1 1) \<and> (0::nat) < 1 \<and> length [NaN, NaN] = 2 * 1 * 1 \<and>
   (1::nat) < 2 \<and>
   nanValsXY (slice_pass 1 1 2 0 [NaN, NaN] (alloc 1 1 2 1 1)) ! (0 * 2 + 1) = int (1 * 1) \<and>
   isnan (minValsXY (slice_pass 1 1 2 0 [NaN, NaN] (alloc 1 1 2 1 1)) ! (0 * 2 + 1)) \<and>
   isnan (maxValsXY (slice_pass 1 1 2 0 [NaN, NaN] (alloc 1 1 2 1 1)) ! (0 * 2 + 1)) \<and>
   isnan (meanValsXY (slice_pass 1 1 2 0 [NaN, NaN] (alloc 1 1 2 1 1)) ! (0 * 2 + 1)) \<and>
   nanValsXYZ (consolidate 1 1 2 0 (slice_pass 1 1 2 0 [NaN, NaN] (alloc 1 1 2 1 1))) ! 0
     = int (2 * 1 * 1) \<and>
   isnan (minValsXYZ (consolidate 1 1 2 0 (slice_pass 1 1 2 0 [NaN, NaN] (alloc 1 1 2 1 1))) ! 0) \<and>
   isnan (maxValsXYZ (consolidate 1 1 2 0 (slice_pass 1 1 2 0 [NaN, NaN] (alloc 1 1 2 1 1))) ! 0) \<and>
   meanValsXYZ (consolidate 1 1 2 0 (slice_pass 1 1 2 0 [NaN, NaN] (alloc 1 1 2 1 1))) ! 0
     = meanValsXYZ (alloc 1 1 2 1 1) ! 0"
proof -
  have a: "allocated 1 1 2 1 1 (alloc 1 1 2 1 1)" by (rule allocated_alloc)
  have h: "(0::nat) < 1" "length [NaN, NaN] = 2 * 1 * 1" "(1::nat) < 2" by simp_all
  note T = nan_count_upper_bound [OF a h(1,2)]
  have n1: "nanValsXY (slice_pass 1 1 2 0 [NaN, NaN] (alloc 1 1 2 1 1)) ! (0 * 2 + 1) = int (1 * 1)"
    by code_simp
  have n2: "nanValsXYZ (consolidate 1 1 2 0 (slice_pass 1 1 2 0 [NaN, NaN] (alloc 1 1 2 1 1))) ! 0
     = int (2 * 1 * 1)"
    by code_simp
  from T n1 h(3) have xy:
    "isnan (minValsXY (slice_pass 1 1 2 0 [NaN, NaN] (alloc 1 1 2 1 1)) ! (0 * 2 + 1)) \<and>
     isnan (maxValsXY (slice_pass 1 1 2 0 [NaN, NaN] (alloc 1 1 2 1 1)) ! (0 * 2 + 1)) \<and>
     isnan (meanValsXY (slice_pass 1 1 2 0 [NaN, NaN] (alloc 1 1 2 1 1)) ! (0 * 2 + 1))"
    by blast
  from T n2 h(3) have xyz:
    "isnan (minValsXYZ (consolidate 1 1 2 0 (slice_pass 1 1 2 0 [NaN, NaN] (alloc 1 1 2 1 1))) ! 0) \<and>
     isnan (maxValsXYZ (consolidate 1 1 2 0 (slice_pass 1 1 2 0 [NaN, NaN] (alloc 1 1 2 1 1))) ! 0) \<and>
     meanValsXYZ (consolidate 1 1 2 0 (slice_pass 1 1 2 0 [NaN, NaN] (alloc 1 1 2 1 1))) ! 0
       = meanValsXYZ (alloc 1 1 2 1 1) ! 0"
    by blast
  from a h n1 n2 xy xyz show ?thesis by blast
qed

subsection \<open>The precision of the sums\<close>


lemma profile_pixel_arrays:
  "meanValsZ (profile_pixel width height depth s cube j k st) =
     (meanValsZ st)[s * width * height + k + j * width :=
        (if nanCount (profile_acc width height depth cube j k) \<noteq> int (height * width)
         then f32_div (sumVal (profile_acc width height depth cube j k))
                (f32_of_int (int depth - nanCount (profile_acc width height depth cube j k)))
         else NaN)]"
  "nanValsZ (profile_pixel width height depth s cube j k st) =
     (nanValsZ st)[s * width * height + k + j * width :=
        nanCount (profile_acc width height depth cube j k)]"
  by (simp_all add: profile_pixel_def profile_acc_def profile_vals_def Let_def fold_map comp_def)

lemma profile_pass_arrays:
  "meanValsZ (profile_pass width height depth s cube st) =
     fold (\<lambda>p r. r[s * width * height + snd p + fst p * width :=
        (if nanCount (profile_acc width height depth cube (fst p) (snd p)) \<noteq> int (height * width)
         then f32_div (sumVal (profile_acc width height depth cube (fst p) (snd p)))
                (f32_of_int (int depth - nanCount (profile_acc width height depth cube (fst p) (snd p))))
         else NaN)]) (List.product [0..<height] [0..<width]) (meanValsZ st)"
  "nanValsZ (profile_pass width height depth s cube st) =
     fold (\<lambda>p r. r[s * width * height + snd p + fst p * width :=
        nanCount (profile_acc width height depth cube (fst p) (snd p))])
       (List.product [0..<height] [0..<width]) (nanValsZ st)"
proof -
  have "meanValsZ (profile_pass width height depth s cube st) =
     fold (\<lambda>j. fold (\<lambda>k r. r[s * width * height + k + j * width :=
        (if nanCount (profile_acc width height depth cube j k) \<noteq> int (height * width)
         then f32_div (sumVal (profile_acc width height depth cube j k))
                (f32_of_int (int depth - nanCount (profile_acc width height depth cube j k)))
         else NaN)]) [0..<width]) [0..<height] (meanValsZ st)"
    unfolding profile_pass_def by (intro rec_fold profile_pixel_arrays)
  then show "meanValsZ (profile_pass width height depth s cube st) =
     fold (\<lambda>p r. r[s * width * height + snd p + fst p * width :=
        (if nanCount (profile_acc width height depth cube (fst p) (snd p)) \<noteq> int (height * width)
         then f32_div (sumVal (profile_acc width height depth cube (fst p) (snd p)))
                (f32_of_int (int depth - nanCount (profile_acc width height depth cube (fst p) (snd p))))
         else NaN)]) (List.product [0..<height] [0..<width]) (meanValsZ st)"
    by (simp add: fold_product)
  have "nanValsZ (profile_pass width height depth s cube st) =
     fold (\<lambda>j. fold (\<lambda>k r. r[s * width * height + k + j * width :=
        nanCount (profile_acc width height depth cube j k)]) [0..<width]) [0..<height] (nanValsZ st)"
    unfolding profile_pass_def by (intro rec_fold profile_pixel_arrays)
  then show "nanValsZ (profile_pass width height depth s cube st) =
     fold (\<lambda>p r. r[s * width * height + snd p + fst p * width :=
        nanCount (profile_acc width height depth cube (fst p) (snd p))])
       (List.product [0..<height] [0..<width]) (nanValsZ st)"
    by (simp add: fold_product)
qed

lemma profile_index_inj:
  "inj_on (\<lambda>p. s * width * height + snd p + fst p * width) (set (List.product [0..<height] [0..<width]))"
proof (rule inj_onI)
  fix p q :: "nat \<times> nat"
  assume p: "p \<in> set (List.product [0..<height] [0..<width])"
    and q: "q \<in> set (List.product [0..<height] [0..<width])"
    and eq: "s * width * height + snd p + fst p * width = s * width * height + snd q + fst q * width"
  have "snd p + width * fst p = snd q + width * fst q" using eq by (simp add: mult.commute)
  moreover have "snd p < width" "snd q < width" using p q by auto
  ultimately have "snd p = snd q \<and> fst p = fst q" by (intro mixed_radix_inj)
  then show "p = q" by (simp add: prod_eq_iff)
qed

lemma profile_index_less:
  fixes width height stokes :: nat
  assumes "j < height" "k < width" "s < stokes"
  shows "s * width * height + k + j * width < width * height * stokes"
proof -
  have "k + width * j < width * height" using assms by (intro mixed_radix_less)
  then have "(k + width * j) + (width * height) * s < (width * height) * stokes"
    using assms by (intro mixed_radix_less)
  then show ?thesis by (simp add: algebra_simps)
qed

lemma profile_pass_z:
  assumes "1 < depth" "allocated width height depth stokes numBins st" "s < stokes"
    "j < height" "k < width"
  shows "meanValsZ (profile_pass width height depth s cube st) ! (s * width * height + k + j * width) =
        (if nanCount (profile_acc width height depth cube j k) \<noteq> int (height * width)
         then f32_div (sumVal (profile_acc width height depth cube j k))
                (f32_of_int (int depth - nanCount (profile_acc width height depth cube j k)))
         else NaN)"
    "nanValsZ (profile_pass width height depth s cube st) ! (s * width * height + k + j * width) =
        nanCount (profile_acc width height depth cube j k)"
proof -
  let ?f = "\<lambda>p::nat \<times> nat. s * width * height + snd p + fst p * width"
  let ?xs = "List.product [0..<height] [0..<width]"
  have mem: "(j, k) \<in> set ?xs" using assms by simp
  have b1: "\<forall>p\<in>set ?xs. ?f p < length (meanValsZ st)"
    using assms(1,2,3) by (auto simp: allocated_def profile_index_less)
  have b2: "\<forall>p\<in>set ?xs. ?f p < length (nanValsZ st)"
    using assms(1,2,3) by (auto simp: allocated_def profile_index_less)
  show "meanValsZ (profile_pass width height depth s cube st) ! (s * width * height + k + j * width) =
        (if nanCount (profile_acc width height depth cube j k) \<noteq> int (height * width)
         then f32_div (sumVal (profile_acc width height depth cube j k))
                (f32_of_int (int depth - nanCount (profile_acc width height depth cube j k)))
         else NaN)"
    unfolding profile_pass_arrays
    using fold_update_nth [OF profile_index_inj b1 mem] by simp
  show "nanValsZ (profile_pass width height depth s cube st) ! (s * width * height + k + j * width) =
        nanCount (profile_acc width height depth cube j k)"
    unfolding profile_pass_arrays
    using fold_update_nth [OF profile_index_inj b2 mem] by simp
qed

lemma profile_acc_fields:
  "nanCount (profile_acc width height depth cube j k) =
     int (length (filter isnan (profile_vals width height depth cube j k)))"
  "sumVal (profile_acc width height depth cube j k) =
     foldl f32_add (Fin 0) (filter (\<lambda>v. \<not> isnan v) (profile_vals width height depth cube j k))"
  by (simp_all add: profile_acc_def fold_stat_step acc_init_def)

lemma xyz_step_sum:
  "xyzSum (xyz_step width height depth s st i x) =
     (if \<not> isnan (meanValsXY st ! (s * depth + i))
      then f64_add (xyzSum x)
             (f2d (f32_mul (meanValsXY st ! (s * depth + i))
                     (f32_of_int (int (height * width) - nanValsXY st ! (s * depth + i)))))
      else xyzSum x)"
  by (simp add: xyz_step_def Let_def)

lemma xyz_loop_sum:
  "xyzSum (fold (xyz_step width height depth s st) [0..<n] x) =
     foldl f64_add (xyzSum x)
       (map (\<lambda>z. f2d (f32_mul (meanValsXY st ! (s * depth + z))
                        (f32_of_int (int (height * width) - nanValsXY st ! (s * depth + z)))))
          (filter (\<lambda>z. \<not> isnan (meanValsXY st ! (s * depth + z))) [0..<n]))"
  by (induction n) (simp_all add: xyz_step_sum)

text \<open>
  Claim C8, as amended. The sum behind \<open>meanXY[s,z]\<close> and the sum behind \<open>meanZ\<close> of a spatial
  pixel are accumulated in single precision: the accumulator is a \<^verbatim>\<open>float\<close>, every addition
  rounds to binary32, and the division by the count of values that are no NaN is a
  binary32 division. Only the sum of the whole cube, \<^verbatim>\<open>xyzSum\<close>, is accumulated in
  \<^verbatim>\<open>double\<close>, over products that are themselves rounded to binary32.
\<close>

theorem single_precision_means:
  assumes "allocated width height depth stokes numBins st" "s < stokes"
    and "length standardCube = depth * height * width"
  shows "(\<forall>z<depth.
            nanValsXY (slice_pass width height depth s standardCube st) ! (s * depth + z)
              \<noteq> int (height * width) \<longrightarrow>
            meanValsXY (slice_pass width height depth s standardCube st) ! (s * depth + z) =
              f32_div (foldl f32_add (Fin 0)
                         (filter (\<lambda>v. \<not> isnan v) (slice_vals width height standardCube z)))
                (f32_of_int (int (height * width)
                   - nanValsXY (slice_pass width height depth s standardCube st) ! (s * depth + z)))) \<and>
         (1 < depth \<longrightarrow>
          (\<forall>j<height. \<forall>k<width.
             nanValsZ (profile_pass width height depth s standardCube st)
                 ! (s * width * height + k + j * width) \<noteq> int (height * width) \<longrightarrow>
             meanValsZ (profile_pass width height depth s standardCube st)
                 ! (s * width * height + k + j * width) =
               f32_div (foldl f32_add (Fin 0)
                          (filter (\<lambda>v. \<not> isnan v) (profile_vals width height depth standardCube j k)))
                 (f32_of_int (int depth
                    - nanValsZ (profile_pass width height depth s standardCube st)
                        ! (s * width * height + k + j * width))))) \<and>
         xyzSum (xyz_loop width height depth s st) =
           foldl f64_add (Fin 0)
             (map (\<lambda>z. f2d (f32_mul (meanValsXY st ! (s * depth + z))
                              (f32_of_int (int (height * width) - nanValsXY st ! (s * depth + z)))))
                (filter (\<lambda>z. \<not> isnan (meanValsXY st ! (s * depth + z))) [0..<depth]))"
proof -
  note P = slice_pass_xy [OF assms(1,2) _ assms(3)]
  have xy: "meanValsXY (slice_pass width height depth s standardCube st) ! (s * depth + z) =
              f32_div (foldl f32_add (Fin 0)
                         (filter (\<lambda>v. \<not> isnan v) (slice_vals width height standardCube z)))
                (f32_of_int (int (height * width)
                   - nanValsXY (slice_pass width height depth s standardCube st) ! (s * depth + z)))"
    if "z < depth" "nanValsXY (slice_pass width height depth s standardCube st) ! (s * depth + z)
              \<noteq> int (height * width)" for z
    using that unfolding P [OF that(1)] pub_mean_def by (simp add: slice_acc_fields)
  have z: "meanValsZ (profile_pass width height depth s standardCube st)
                 ! (s * width * height + k + j * width) =
               f32_div (foldl f32_add (Fin 0)
                          (filter (\<lambda>v. \<not> isnan v) (profile_vals width height depth standardCube j k)))
                 (f32_of_int (int depth
                    - nanValsZ (profile_pass width height depth s standardCube st)
                        ! (s * width * height + k + j * width)))"
    if "1 < depth" "j < height" "k < width"
      "nanValsZ (profile_pass width height depth s standardCube st)
                 ! (s * width * height + k + j * width) \<noteq> int (height * width)" for j k
    using that(4) unfolding profile_pass_z [OF that(1) assms(1,2) that(2,3)]
    by (simp add: profile_acc_fields)
  have xyz: "xyzSum (xyz_loop width height depth s st) =
           foldl f64_add (Fin 0)
             (map (\<lambda>z. f2d (f32_mul (meanValsXY st ! (s * depth + z))
                              (f32_of_int (int (height * width) - nanValsXY st ! (s * depth + z)))))
                (filter (\<lambda>z. \<not> isnan (meanValsXY st ! (s * depth + z))) [0..<depth]))"
    by (simp add: xyz_loop_def xyz_loop_sum)
  show ?thesis using xy z xyz by blast
qed


text \<open>
  The claim as stated fails on the slice (and on the profile) \<open>16777216, 1, 1\<close>. In binary32
  \<open>16777216 + 1\<close> rounds back to 16777216, so the \<^verbatim>\<open>float\<close> sum is 16777216 and the mean
  \<open>16777216 / 3\<close> rounds to 5592405.5. Accumulated in \<^verbatim>\<open>double\<close> the sum is 16777218 and the
  mean, converted to \<^verbatim>\<open>float\<close> when published, is 5592406.
\<close>

theorem double_precision_counterexample:
  "nanValsXY (slice_pass 3 1 1 0 [Fin 16777216, Fin 1, Fin 1] (alloc 3 1 1 1 2)) ! 0 = 0 \<and>
   meanValsXY (slice_pass 3 1 1 0 [Fin 16777216, Fin 1, Fin 1] (alloc 3 1 1 1 2)) ! 0
     = Fin (11184811 / 2) \<and>
   spec_mean [Fin 16777216, Fin 1, Fin 1] = Fin 5592406 \<and>
   meanValsZ (profile_pass 1 1 3 0 [Fin 16777216, Fin 1, Fin 1] (alloc 1 1 3 1 1)) ! 0
     = Fin (11184811 / 2)"
proof -
  have a: "nanValsXY (slice_pass 3 1 1 0 [Fin 16777216, Fin 1, Fin 1] (alloc 3 1 1 1 2)) ! 0 = 0"
    by code_simp
  have b: "meanValsXY (slice_pass 3 1 1 0 [Fin 16777216, Fin 1, Fin 1] (alloc 3 1 1 1 2)) ! 0
     = Fin (11184811 / 2)"
    by code_simp
  have c: "spec_mean [Fin 16777216, Fin 1, Fin 1] = Fin 5592406"
    by code_simp
  have d: "meanValsZ (profile_pass 1 1 3 0 [Fin 16777216, Fin 1, Fin 1] (alloc 1 1 3 1 1)) ! 0
     = Fin (11184811 / 2)"
    by code_simp
  from a b c d show ?thesis by blast
qed

lemma f32_sum_example:
  "f32_div (foldl f32_add (Fin 0) [Fin 16777216, Fin 1, Fin 1]) (f32_of_int 3) = Fin (11184811 / 2)"
  by code_simp

theorem single_precision_means_witness:
  "allocated 3 1 1 1 2 (alloc 3 1 1 1 2) \<and> (0::nat) < 1 \<and>
   length [Fin 16777216, Fin 1, Fin 1] = 1 * 1 * 3 \<and>
   nanValsXY (slice_pass 3 1 1 0 [Fin 16777216, Fin 1, Fin 1] (alloc 3 1 1 1 2)) ! (0 * 1 + 0)
     \<noteq> int (1 * 3) \<and>
   meanValsXY (slice_pass 3 1 1 0 [Fin 16777216, Fin 1, Fin 1] (alloc 3 1 1 1 2)) ! (0 * 1 + 0) =
     f32_div (foldl f32_add (Fin 0)
                (filter (\<lambda>v. \<not> isnan v) (slice_vals 3 1 [Fin 16777216, Fin 1, Fin 1] 0)))
       (f32_of_int (int (1 * 3)
          - nanValsXY (slice_pass 3 1 1 0 [Fin 16777216, Fin 1, Fin 1] (alloc 3 1 1 1 2)) ! (0 * 1 + 0)))"
proof -
  have a: "allocated 3 1 1 1 2 (alloc 3 1 1 1 2)" by (rule allocated_alloc)
  have h: "(0::nat) < 1" "length [Fin 16777216, Fin 1, Fin 1] = 1 * 1 * 3" by simp_all
  note T = single_precision_means [OF a h, THEN conjunct1, rule_format, of 0]
  have n: "nanValsXY (slice_pass 3 1 1 0 [Fin 16777216, Fin 1, Fin 1] (alloc 3 1 1 1 2)) ! (0 * 1 + 0)
     \<noteq> int (1 * 3)"
    by code_simp
  from T [OF h(1) n] a h n show ?thesis by blast
qed

subsection \<open>The reader's status\<close>

text \<open>
  Claim C7 at a 2 by 2 image whose pixel read fails with status 108 (and, second, whose
  header-record read fails with status 203). \<^verbatim>\<open>main\<close> tests the status after
  \<^verbatim>\<open>fits_open_file\<close> only: the run goes on with the statistics, writes the data set and
  the statistics, renames the \<^verbatim>\<open>.tmp\<close> file to the final name and exits with code 0.
\<close>

theorem failed_pixel_read_ignored:
  "main_driver [''hdf_convert'', ''in.fits'']
     \<lparr>open_status = 0, img_type_status = 0, bitpix = - 32, img_dim_status = 0, naxis = 2,
      img_size_status = 0, naxes = [2, 2], hdrspace_status = 0, nkeys = 1,
      record_status = (\<lambda>i. 0), pix_status = (\<lambda>s. 108)\<rparr> =
   \<lparr>exit_code = 0, last_status = 108,
    actions = [Print ''Converting FITS file in.fits to HDF5 file in.hdf5'', FitsOpen,
               FitsGetImgType, FitsGetImgDim, FitsGetImgSize, H5Create ''in.hdf5.tmp'',
               FitsGetHdrspace, FitsReadRecord 0, H5CreateDatasets,
               FitsReadPix 0, ProcessCube 0, H5WriteCube 0,
               H5WriteStatistics, H5Close, Rename ''in.hdf5.tmp'' ''in.hdf5'']\<rparr> \<and>
   main_driver [''hdf_convert'', ''in.fits'']
     \<lparr>open_status = 0, img_type_status = 0, bitpix = - 32, img_dim_status = 0, naxis = 2,
      img_size_status = 0, naxes = [2, 2], hdrspace_status = 0, nkeys = 1,
      record_status = (\<lambda>i. 203), pix_status = (\<lambda>s. 0)\<rparr> =
   \<lparr>exit_code = 0, last_status = 203,
    actions = [Print ''Converting FITS file in.fits to HDF5 file in.hdf5'', FitsOpen,
               FitsGetImgType, FitsGetImgDim, FitsGetImgSize, H5Create ''in.hdf5.tmp'',
               FitsGetHdrspace, FitsReadRecord 0, H5CreateDatasets,
               FitsReadPix 0, ProcessCube 0, H5WriteCube 0,
               H5WriteStatistics, H5Close, Rename ''in.hdf5.tmp'' ''in.hdf5'']\<rparr>"
  by (simp add: main_driver_def cfitsio_def output_file_name_def find_last_of_def npos_def
      size_sub_def substr_def Let_def)

end
